theory Spec2Isabelle
  imports Main
begin

section \<open>The Admin model (backend/models/Admin.js)\<close>

text \<open>
  Times are \<^verbatim>\<open>Date.now()\<close> readings, milliseconds since the epoch. One request reads
  the clock several times; the model gives a request the single reading \<open>now\<close>.
\<close>

type_synonym time = int

datatype role = Admin | SuperAdmin

text \<open>
  The stored fields of \<^verbatim>\<open>AdminSchema\<close>. An optional path that is unset in the store is
  \<open>None\<close>. \<open>password\<close> is \<open>select: false\<close>: it is \<open>None\<close> in a document that was
  loaded without \<^verbatim>\<open>select('+password')\<close>. \<open>loginAttempts\<close> has the schema default 0,
  which a read of an unset path yields (\<open>attempts\<close>).
\<close>

record admin =
  admin_id :: nat
  name :: string
  email :: string
  password :: "string option"
  role :: role
  avatar :: "string option"
  isActive :: bool
  lastLogin :: "time option"
  loginAttempts :: "int option"
  lockUntil :: "time option"
  passwordChangedAt :: "time option"
  passwordResetToken :: "string option"
  passwordResetExpires :: "time option"
  updatedAt :: time

definition attempts :: "admin \<Rightarrow> int" where
  "attempts a = (case loginAttempts a of None \<Rightarrow> 0 | Some n \<Rightarrow> n)"

text \<open>
  The libraries the model calls are parameters: \<^verbatim>\<open>bcrypt.hash(password, salt)\<close>,
  \<^verbatim>\<open>bcrypt.compare(candidate, hash)\<close>, the hex SHA-256 digest of \<^verbatim>\<open>crypto\<close>,
  \<^verbatim>\<open>jwt.sign({id, role}, secret, {expiresIn})\<close>, \<^verbatim>\<open>jwt.verify(token, secret)\<close> (the \<^verbatim>\<open>id\<close>
  of the payload, \<open>None\<close> when it throws), and the transport that nodemailer's
  \<^verbatim>\<open>createTransport\<close> builds from the mail configuration, as what its \<^verbatim>\<open>sendMail\<close> does
  with a recipient and a reset token (\<open>True\<close> when it sends, \<open>False\<close> when it throws).
\<close>

record env =
  bcrypt_hash :: "string \<Rightarrow> string \<Rightarrow> string"
  bcrypt_compare :: "string \<Rightarrow> string \<Rightarrow> bool"
  sha256_hex :: "string \<Rightarrow> string"
  jwt_sign :: "nat \<Rightarrow> role \<Rightarrow> string"
  createTransport :: "string \<Rightarrow> string \<Rightarrow> bool"
  jwt_verify :: "string \<Rightarrow> nat option"

subsection \<open>Documents and the store\<close>

text \<open>
  A document in memory holds the field values (\<open>data\<close>), the paths assigned since it was loaded
  (what \<^verbatim>\<open>isModified\<close> reads and what \<^verbatim>\<open>save\<close> writes), and \<^verbatim>\<open>isNew\<close>.
\<close>

datatype path =
  PPassword | PLastLogin | PPasswordChangedAt | PPasswordResetToken
  | PPasswordResetExpires | PUpdatedAt

record document =
  data :: admin
  modified :: "path set"
  isNew :: bool

definition isModified :: "path \<Rightarrow> document \<Rightarrow> bool" where
  "isModified p d = (p \<in> modified d)"

definition set_password :: "string option \<Rightarrow> document \<Rightarrow> document" where
  "set_password v d =
     d\<lparr>data := (data d)\<lparr>password := v\<rparr>, modified := insert PPassword (modified d)\<rparr>"

definition set_lastLogin :: "time option \<Rightarrow> document \<Rightarrow> document" where
  "set_lastLogin v d =
     d\<lparr>data := (data d)\<lparr>lastLogin := v\<rparr>, modified := insert PLastLogin (modified d)\<rparr>"

definition set_passwordChangedAt :: "time option \<Rightarrow> document \<Rightarrow> document" where
  "set_passwordChangedAt v d =
     d\<lparr>data := (data d)\<lparr>passwordChangedAt := v\<rparr>,
       modified := insert PPasswordChangedAt (modified d)\<rparr>"

definition set_passwordResetToken :: "string option \<Rightarrow> document \<Rightarrow> document" where
  "set_passwordResetToken v d =
     d\<lparr>data := (data d)\<lparr>passwordResetToken := v\<rparr>,
       modified := insert PPasswordResetToken (modified d)\<rparr>"

definition set_passwordResetExpires :: "time option \<Rightarrow> document \<Rightarrow> document" where
  "set_passwordResetExpires v d =
     d\<lparr>data := (data d)\<lparr>passwordResetExpires := v\<rparr>,
       modified := insert PPasswordResetExpires (modified d)\<rparr>"

definition set_updatedAt :: "time \<Rightarrow> document \<Rightarrow> document" where
  "set_updatedAt v d =
     d\<lparr>data := (data d)\<lparr>updatedAt := v\<rparr>, modified := insert PUpdatedAt (modified d)\<rparr>"

text \<open>The collection: the stored records in order; a query returns the first match.\<close>

type_synonym db = "admin list"

definition hydrate :: "bool \<Rightarrow> admin \<Rightarrow> document" where
  "hydrate withPassword a =
     \<lparr>data = (if withPassword then a else a\<lparr>password := None\<rparr>), modified = {}, isNew = False\<rparr>"

definition findOne :: "bool \<Rightarrow> (admin \<Rightarrow> bool) \<Rightarrow> db \<Rightarrow> document option" where
  "findOne withPassword q db = map_option (hydrate withPassword) (List.find q db)"

definition findById :: "nat \<Rightarrow> db \<Rightarrow> document option" where
  "findById i db = findOne False (\<lambda>a. admin_id a = i) db"

fun updateById :: "nat \<Rightarrow> (admin \<Rightarrow> admin) \<Rightarrow> db \<Rightarrow> db" where
  "updateById i f [] = []"
| "updateById i f (a # as) = (if admin_id a = i then f a # as else a # updateById i f as)"

fun removeById :: "nat \<Rightarrow> db \<Rightarrow> db" where
  "removeById i [] = []"
| "removeById i (a # as) = (if admin_id a = i then as else a # removeById i as)"

text \<open>
  \<^verbatim>\<open>this.updateOne(update)\<close> applies the update operators to the stored record with the
  document's \<^verbatim>\<open>_id\<close>, not to the document; \<^verbatim>\<open>timestamps: true\<close> adds \<open>updatedAt\<close>.
\<close>

definition updateOne :: "time \<Rightarrow> admin \<Rightarrow> (admin \<Rightarrow> admin) \<Rightarrow> db \<Rightarrow> db" where
  "updateOne now this upd db = updateById (admin_id this) (\<lambda>s. (upd s)\<lparr>updatedAt := now\<rparr>) db"

subsection \<open>The pre-save hooks and save\<close>

text \<open>
  The password hook, as written:
  \<^verbatim>\<open>
  AdminSchema.pre('save', async function(next) {
      if (!this.isModified('password')) {
          next();
      }
      const salt = await bcrypt.genSalt(...);
      this.password = await bcrypt.hash(this.password, salt);
      this.updatedAt = Date.now();
      next();
  });
  \<close>
  The first branch calls \<^verbatim>\<open>next()\<close> and does not return, so the body goes on. A run of
  the body is recorded as the document at each call of \<^verbatim>\<open>next()\<close>, the document when
  the body ends, and whether it ended by throwing (\<^verbatim>\<open>bcrypt.hash\<close> rejects a password
  that is not a string, which is the case of a document loaded without its password).
\<close>

record hook_run =
  next_docs :: "document list"
  final_doc :: document
  threw :: bool

definition hashPasswordHook :: "env \<Rightarrow> time \<Rightarrow> string \<Rightarrow> document \<Rightarrow> hook_run" where
  "hashPasswordHook E now salt d =
     (let called = (if \<not> isModified PPassword d then [d] else [])
      in case password (data d) of
           None \<Rightarrow> \<lparr>next_docs = called, final_doc = d, threw = True\<rparr>
         | Some p \<Rightarrow>
             (let d' = set_updatedAt now (set_password (Some (bcrypt_hash E p salt)) d)
              in \<lparr>next_docs = called @ [d'], final_doc = d', threw = False\<rparr>))"

definition passwordChangedAtHook :: "time \<Rightarrow> document \<Rightarrow> document" where
  "passwordChangedAtHook now d =
     (if \<not> isModified PPassword d \<or> isNew d then d
      else set_passwordChangedAt (Some (now - 1000)) d)"

text \<open>\<^verbatim>\<open>save\<close> writes the modified paths, and only them, to the stored record.\<close>

definition write_paths :: "document \<Rightarrow> admin \<Rightarrow> admin" where
  "write_paths d s =
     s\<lparr>password := (if PPassword \<in> modified d then password (data d) else password s),
       lastLogin := (if PLastLogin \<in> modified d then lastLogin (data d) else lastLogin s),
       passwordChangedAt :=
         (if PPasswordChangedAt \<in> modified d then passwordChangedAt (data d)
          else passwordChangedAt s),
       passwordResetToken :=
         (if PPasswordResetToken \<in> modified d then passwordResetToken (data d)
          else passwordResetToken s),
       passwordResetExpires :=
         (if PPasswordResetExpires \<in> modified d then passwordResetExpires (data d)
          else passwordResetExpires s),
       updatedAt := (if PUpdatedAt \<in> modified d then updatedAt (data d) else updatedAt s)\<rparr>"

datatype error = HookError | TypeError | SendError

text \<open>
  \<^verbatim>\<open>save\<close>: the timestamps of \<^verbatim>\<open>timestamps: true\<close>, then the two hooks in the order of
  their registration, then the write. The hook chain goes on from a hook at its first
  call of \<^verbatim>\<open>next()\<close>, with the document as it is then; later calls are ignored, and what
  the body does after that call is not part of this save. A body that throws before
  any call fails the save.
\<close>

definition save :: "env \<Rightarrow> time \<Rightarrow> string \<Rightarrow> document \<Rightarrow> db \<Rightarrow> error + document \<times> db" where
  "save E now salt d db =
     (let d1 = (if modified d \<noteq> {} \<or> isNew d then set_updatedAt now d else d)
      in case next_docs (hashPasswordHook E now salt d1) of
           [] \<Rightarrow> Inl HookError
         | d2 # _ \<Rightarrow>
             (let d3 = passwordChangedAtHook now d2
              in Inr (d3\<lparr>modified := {}, isNew := False\<rparr>,
                      updateById (admin_id (data d3)) (write_paths d3) db)))"

subsection \<open>Instance methods\<close>

definition comparePassword :: "env \<Rightarrow> string \<Rightarrow> admin \<Rightarrow> bool option" where
  "comparePassword E candidatePassword this =
     (case password this of
        None \<Rightarrow> None
      | Some h \<Rightarrow> Some (bcrypt_compare E candidatePassword h))"

definition generateAuthToken :: "env \<Rightarrow> admin \<Rightarrow> string" where
  "generateAuthToken E this = jwt_sign E (admin_id this) (role this)"

definition isLocked :: "time \<Rightarrow> admin \<Rightarrow> bool" where
  "isLocked now this = (case lockUntil this of None \<Rightarrow> False | Some t \<Rightarrow> t > now)"

definition incLoginAttempts :: "time \<Rightarrow> admin \<Rightarrow> db \<Rightarrow> db" where
  "incLoginAttempts now this db =
     (if (case lockUntil this of None \<Rightarrow> False | Some t \<Rightarrow> t < now)
      then updateOne now this (\<lambda>s. s\<lparr>lockUntil := None, loginAttempts := Some 1\<rparr>) db
      else
        (let inc = (\<lambda>s. s\<lparr>loginAttempts := Some (attempts s + 1)\<rparr>)
         in if attempts this + 1 \<ge> 5 \<and> \<not> isLocked now this
            then updateOne now this
                   (\<lambda>s. (inc s)\<lparr>lockUntil := Some (now + 2 * 60 * 60 * 1000)\<rparr>) db
            else updateOne now this inc db))"

definition resetLoginAttempts :: "time \<Rightarrow> admin \<Rightarrow> db \<Rightarrow> db" where
  "resetLoginAttempts now this db =
     updateOne now this (\<lambda>s. s\<lparr>loginAttempts := None, lockUntil := None\<rparr>) db"

definition updateLastLogin ::
  "env \<Rightarrow> time \<Rightarrow> string \<Rightarrow> document \<Rightarrow> db \<Rightarrow> error + document \<times> db" where
  "updateLastLogin E now salt this db = save E now salt (set_lastLogin (Some now) this) db"

section \<open>The authentication middleware (backend/middleware/auth.js)\<close>

text \<open>
  A response is what the handler sends: \<^verbatim>\<open>res.status(n).json({success: false, error})\<close>,
  the validation failure (status 400 with the validator's details), the login success
  with its token and profile, \<^verbatim>\<open>res.json({success: true, message})\<close>, or \<^verbatim>\<open>next(error)\<close>
  from the \<^verbatim>\<open>catch\<close> block.
\<close>

record profile =
  profile_id :: nat
  profile_name :: string
  profile_email :: string
  profile_role :: role
  profile_avatar :: "string option"
  profile_lastLogin :: "time option"

datatype response =
  ValidationFailed
  | Failure nat string
  | LoginSuccessful string profile
  | Success string
  | Forwarded

fun role_name :: "role \<Rightarrow> string" where
  "role_name Admin = ''admin''"
| "role_name SuperAdmin = ''super-admin''"

text \<open>\<open>token\<close> is the second word of the \<^verbatim>\<open>Authorization: Bearer ...\<close> header, if any.\<close>

definition protect :: "env \<Rightarrow> string option \<Rightarrow> db \<Rightarrow> response + document" where
  "protect E token db =
     (case token of
        None \<Rightarrow> Inl (Failure 401 ''Not authorized to access this route'')
      | Some t \<Rightarrow>
          if t = [] then Inl (Failure 401 ''Not authorized to access this route'')
          else
            (case jwt_verify E t of
               None \<Rightarrow> Inl (Failure 401 ''Token is not valid'')
             | Some i \<Rightarrow>
                 (case findById i db of
                    None \<Rightarrow> Inl (Failure 401 ''Token is not valid'')
                  | Some admin \<Rightarrow> Inr admin)))"

text \<open>\<open>authorize roles\<close> answers \<open>None\<close> when it calls \<^verbatim>\<open>next()\<close>.\<close>

definition authorize :: "role list \<Rightarrow> document option \<Rightarrow> response option" where
  "authorize roles req_admin =
     (case req_admin of
        None \<Rightarrow> Some (Failure 401 ''Not authorized to access this route'')
      | Some admin \<Rightarrow>
          if role (data admin) \<notin> set roles
          then Some (Failure 403
                 (''User role '' @ role_name (role (data admin)) @
                  '' is not authorized to access this route''))
          else None)"

section \<open>The email service (backend/utils/emailService.js)\<close>

text \<open>
  The module object of nodemailer, as a lookup of its properties: it has the function
  \<^verbatim>\<open>createTransport\<close>. The service builds its transporter with
  \<^verbatim>\<open>nodemailer.createTransporter({...})\<close>, a property the module does not have, so the
  call is a call of \<^verbatim>\<open>undefined\<close> and throws a TypeError.
\<close>

definition nodemailer :: "env \<Rightarrow> string \<Rightarrow> (string \<Rightarrow> string \<Rightarrow> bool) option" where
  "nodemailer E property =
     (if property = ''createTransport'' then Some (createTransport E) else None)"

definition createTransporter :: "env \<Rightarrow> error + (string \<Rightarrow> string \<Rightarrow> bool)" where
  "createTransporter E =
     (case nodemailer E ''createTransporter'' of
        None \<Rightarrow> Inl TypeError
      | Some transporter \<Rightarrow> Inr transporter)"

text \<open>
  \<^verbatim>\<open>sendPasswordResetEmail\<close> calls \<^verbatim>\<open>createTransporter()\<close> first, outside its \<^verbatim>\<open>try\<close>; then
  it sends the mail and returns \<^verbatim>\<open>true\<close>, or throws the error of \<^verbatim>\<open>sendMail\<close> again.
\<close>

definition sendPasswordResetEmail :: "env \<Rightarrow> string \<Rightarrow> string \<Rightarrow> error + bool" where
  "sendPasswordResetEmail E mail resetToken =
     (case createTransporter E of
        Inl e \<Rightarrow> Inl e
      | Inr transporter \<Rightarrow> if transporter mail resetToken then Inr True else Inl SendError)"

section \<open>The admin routes (backend/routes/admin.js)\<close>

text \<open>
  \<open>valid\<close> is \<^verbatim>\<open>validationResult(req).isEmpty()\<close>; \<open>mail\<close> is the normalised email of the
  body. The handler of the login route after the lookup is \<open>loginHandler\<close>, so that the
  lookup and the update of two requests can be interleaved.
\<close>

definition loginHandler ::
  "env \<Rightarrow> time \<Rightarrow> string \<Rightarrow> string \<Rightarrow> document option \<Rightarrow> db \<Rightarrow> response \<times> db" where
  "loginHandler E now salt pw found db =
     (case found of
        None \<Rightarrow> (Failure 401 ''Invalid credentials'', db)
      | Some admin \<Rightarrow>
          if isLocked now (data admin)
          then (Failure 423
                  ''Account is locked due to too many failed login attempts. Please try again later.'',
                db)
          else if \<not> isActive (data admin) then (Failure 401 ''Account is deactivated'', db)
          else
            (case comparePassword E pw (data admin) of
               None \<Rightarrow> (Forwarded, db)
             | Some isMatch \<Rightarrow>
                 if \<not> isMatch
                 then (Failure 401 ''Invalid credentials'', incLoginAttempts now (data admin) db)
                 else
                   (let db1 = resetLoginAttempts now (data admin) db
                    in case updateLastLogin E now salt admin db1 of
                         Inl _ \<Rightarrow> (Forwarded, db1)
                       | Inr (admin', db2) \<Rightarrow>
                           (LoginSuccessful (generateAuthToken E (data admin'))
                              \<lparr>profile_id = admin_id (data admin'),
                               profile_name = name (data admin'),
                               profile_email = email (data admin'),
                               profile_role = role (data admin'),
                               profile_avatar = avatar (data admin'),
                               profile_lastLogin = lastLogin (data admin')\<rparr>,
                            db2))))"

definition login ::
  "env \<Rightarrow> bool \<Rightarrow> time \<Rightarrow> string \<Rightarrow> string \<Rightarrow> string \<Rightarrow> db \<Rightarrow> response \<times> db" where
  "login E valid now salt mail pw db =
     (if \<not> valid then (ValidationFailed, db)
      else loginHandler E now salt pw (findOne True (\<lambda>a. email a = mail) db) db)"

definition forgotPassword ::
  "env \<Rightarrow> bool \<Rightarrow> time \<Rightarrow> string \<Rightarrow> string \<Rightarrow> string \<Rightarrow> db \<Rightarrow> response \<times> db" where
  "forgotPassword E valid now salt resetToken mail db =
     (if \<not> valid then (ValidationFailed, db)
      else
        (case findOne False (\<lambda>a. email a = mail) db of
           None \<Rightarrow> (Failure 404 ''No admin found with that email'', db)
         | Some admin \<Rightarrow>
             (let admin1 =
                    set_passwordResetExpires (Some (now + 60 * 60 * 1000))
                      (set_passwordResetToken (Some (sha256_hex E resetToken)) admin)
              in case save E now salt admin1 db of
                   Inl _ \<Rightarrow> (Forwarded, db)
                 | Inr (admin2, db1) \<Rightarrow>
                     (case sendPasswordResetEmail E mail resetToken of
                        Inr _ \<Rightarrow> (Success ''Password reset email sent'', db1)
                      | Inl emailError \<Rightarrow>
                          (let admin3 =
                                 set_passwordResetExpires None
                                   (set_passwordResetToken None admin2)
                           in case save E now salt admin3 db1 of
                                Inl _ \<Rightarrow> (Forwarded, db1)
                              | Inr (_, db2) \<Rightarrow>
                                  (Failure 500 ''Email could not be sent'', db2))))))"

definition resetPassword ::
  "env \<Rightarrow> bool \<Rightarrow> time \<Rightarrow> string \<Rightarrow> string \<Rightarrow> string \<Rightarrow> db \<Rightarrow> response \<times> db" where
  "resetPassword E valid now salt token pw db =
     (if \<not> valid then (ValidationFailed, db)
      else
        (let resetToken = sha256_hex E token
         in case findOne False
                   (\<lambda>a. passwordResetToken a = Some resetToken \<and>
                        (case passwordResetExpires a of None \<Rightarrow> False | Some e \<Rightarrow> e > now))
                   db of
              None \<Rightarrow> (Failure 400 ''Invalid or expired reset token'', db)
            | Some admin \<Rightarrow>
                (let admin1 =
                       set_passwordResetExpires None
                         (set_passwordResetToken None (set_password (Some pw) admin))
                 in case save E now salt admin1 db of
                      Inl _ \<Rightarrow> (Forwarded, db)
                    | Inr (_, db1) \<Rightarrow> (Success ''Password reset successful'', db1))))"

definition deleteAdminHandler :: "nat \<Rightarrow> document \<Rightarrow> db \<Rightarrow> response \<times> db" where
  "deleteAdminHandler target req_admin db =
     (case findById target db of
        None \<Rightarrow> (Failure 404 ''Admin not found'', db)
      | Some admin \<Rightarrow>
          if admin_id (data admin) = admin_id (data req_admin)
          then (Failure 400 ''Cannot delete your own account'', db)
          else (Success ''Admin deleted successfully'', removeById (admin_id (data admin)) db))"

definition deleteAdmin :: "env \<Rightarrow> string option \<Rightarrow> nat \<Rightarrow> db \<Rightarrow> response \<times> db" where
  "deleteAdmin E token target db =
     (case protect E token db of
        Inl r \<Rightarrow> (r, db)
      | Inr req_admin \<Rightarrow>
          (case authorize [SuperAdmin] (Some req_admin) of
             Some r \<Rightarrow> (r, db)
           | None \<Rightarrow> deleteAdminHandler target req_admin db))"

section \<open>Request sequences and an example store\<close>

text \<open>
  A client sending login requests for one email one after the other, each with its time
  and password; the store after the last one.
\<close>

fun loginSequence :: "env \<Rightarrow> string \<Rightarrow> string \<Rightarrow> (time \<times> string) list \<Rightarrow> db \<Rightarrow> db" where
  "loginSequence E salt mail [] db = db"
| "loginSequence E salt mail ((now, pw) # rest) db =
     loginSequence E salt mail rest (snd (login E True now salt mail pw db))"

text \<open>
  Requests that have each loaded their document already (the lookup of the login route
  is done), handled one after the other: the updates of requests in flight together.
\<close>

fun loginHandlers :: "env \<Rightarrow> string \<Rightarrow> (time \<times> string \<times> document) list \<Rightarrow> db \<Rightarrow> db" where
  "loginHandlers E salt [] db = db"
| "loginHandlers E salt ((now, pw, found) # rest) db =
     loginHandlers E salt rest (snd (loginHandler E now salt pw (Some found) db))"

text \<open>A small store and stand-ins for the libraries, to run the model on.\<close>

definition example_env :: env where
  "example_env =
     \<lparr>bcrypt_hash = (\<lambda>p s. ''#'' @ p),
      bcrypt_compare = (\<lambda>c h. h = ''#'' @ c),
      sha256_hex = (\<lambda>t. ''sha:'' @ t),
      jwt_sign = (\<lambda>i r. ''jwt:'' @ role_name r),
      createTransport = (\<lambda>m t. True),
      jwt_verify = (\<lambda>t. if t = ''t1'' then Some 1 else if t = ''t2'' then Some 2 else None)\<rparr>"

definition alice :: admin where
  "alice =
     \<lparr>admin_id = 1, name = ''Alice'', email = ''alice@x.io'', password = Some ''#secret1'',
      role = SuperAdmin, avatar = None, isActive = True, lastLogin = None,
      loginAttempts = Some 0, lockUntil = None, passwordChangedAt = None,
      passwordResetToken = None, passwordResetExpires = None, updatedAt = 0\<rparr>"

definition bob :: admin where
  "bob =
     \<lparr>admin_id = 2, name = ''Bob'', email = ''bob@x.io'', password = Some ''#secret2'',
      role = Admin, avatar = None, isActive = True, lastLogin = None,
      loginAttempts = Some 3, lockUntil = None, passwordChangedAt = None,
      passwordResetToken = None, passwordResetExpires = None, updatedAt = 0\<rparr>"

section \<open>The store: lookups after updates\<close>

lemma map_id_updateById:
  "(\<And>x. admin_id (f x) = admin_id x) \<Longrightarrow> map admin_id (updateById i f db) = map admin_id db"
  by (induction db) auto

lemma find_id_distinct:
  "distinct (map admin_id db) \<Longrightarrow> a \<in> set db \<Longrightarrow>
   List.find (\<lambda>x. admin_id x = admin_id a) db = Some a"
  by (induction db) auto

lemma find_mem: "List.find P db = Some a \<Longrightarrow> a \<in> set db \<and> P a"
  by (induction db) (auto split: if_splits)

lemma find_updateById_stable:
  "distinct (map admin_id db) \<Longrightarrow> List.find P db = Some a \<Longrightarrow>
   (\<And>x. P (f x) = P x) \<Longrightarrow>
   List.find P (updateById (admin_id a) f db) = Some (f a)"
proof (induction db)
  case Nil
  then show ?case by simp
next
  case (Cons x xs)
  show ?case
  proof (cases "P x")
    case True
    with Cons.prems show ?thesis by simp
  next
    case False
    with Cons.prems have fa: "List.find P xs = Some a" by simp
    then have "a \<in> set xs" by (simp add: find_mem)
    with Cons.prems(1) have "admin_id x \<noteq> admin_id a" by auto
    with False Cons fa show ?thesis by simp
  qed
qed

lemma find_updateById_only:
  "distinct (map admin_id db) \<Longrightarrow> a \<in> set db \<Longrightarrow>
   (\<And>x. x \<in> set db \<Longrightarrow> x \<noteq> a \<Longrightarrow> \<not> P x) \<Longrightarrow>
   List.find P (updateById (admin_id a) f db) = (if P (f a) then Some (f a) else None)"
proof (induction db)
  case Nil
  then show ?case by simp
next
  case (Cons x xs)
  show ?case
  proof (cases "x = a")
    case True
    with Cons.prems(1) have "a \<notin> set xs" by auto
    with Cons.prems(3) have "\<And>y. y \<in> set xs \<Longrightarrow> \<not> P y" by auto
    then have "List.find P xs = None" by (simp add: find_None_iff)
    with True show ?thesis by simp
  next
    case False
    with Cons.prems have mem: "a \<in> set xs" by simp
    with Cons.prems(1) have ne: "admin_id x \<noteq> admin_id a" by auto
    from Cons.prems(3) False have "\<not> P x" by simp
    with ne Cons.IH mem Cons.prems show ?thesis by simp
  qed
qed

lemma find_other_updateById:
  "(\<And>x. admin_id (f x) = admin_id x) \<Longrightarrow> j \<noteq> i \<Longrightarrow>
   List.find (\<lambda>x. admin_id x = j) (updateById i f db) = List.find (\<lambda>x. admin_id x = j) db"
  by (induction db) auto

lemma updateById_twice:
  "(\<And>x. admin_id (f x) = admin_id x) \<Longrightarrow>
   updateById i g (updateById i f db) = updateById i (\<lambda>x. g (f x)) db"
  by (induction db) auto

lemma find_id_updateById:
  "(\<And>x. admin_id (f x) = admin_id x) \<Longrightarrow>
   List.find (\<lambda>x. admin_id x = i) (updateById i f db) =
     map_option f (List.find (\<lambda>x. admin_id x = i) db)"
  by (induction db) auto

lemma find_removeById_same:
  "distinct (map admin_id db) \<Longrightarrow> List.find (\<lambda>x. admin_id x = i) (removeById i db) = None"
  by (induction db) (auto simp add: find_None_iff image_iff)

lemma find_removeById_other:
  "j \<noteq> i \<Longrightarrow>
   List.find (\<lambda>x. admin_id x = j) (removeById i db) = List.find (\<lambda>x. admin_id x = j) db"
  by (induction db) auto

subsection \<open>Saving a document\<close>

lemma save_password_unmodified:
  "PPassword \<notin> modified d \<Longrightarrow>
   save E now salt d db =
     (let d1 = (if modified d \<noteq> {} \<or> isNew d then set_updatedAt now d else d)
      in Inr (d1\<lparr>modified := {}, isNew := False\<rparr>,
              updateById (admin_id (data d1)) (write_paths d1) db))"
  by (simp add: save_def hashPasswordHook_def passwordChangedAtHook_def isModified_def
      set_updatedAt_def Let_def split: option.splits)

lemma write_paths_fun:
  "write_paths d =
     (\<lambda>s. s\<lparr>password := (if PPassword \<in> modified d then password (data d) else password s),
       lastLogin := (if PLastLogin \<in> modified d then lastLogin (data d) else lastLogin s),
       passwordChangedAt :=
         (if PPasswordChangedAt \<in> modified d then passwordChangedAt (data d)
          else passwordChangedAt s),
       passwordResetToken :=
         (if PPasswordResetToken \<in> modified d then passwordResetToken (data d)
          else passwordResetToken s),
       passwordResetExpires :=
         (if PPasswordResetExpires \<in> modified d then passwordResetExpires (data d)
          else passwordResetExpires s),
       updatedAt := (if PUpdatedAt \<in> modified d then updatedAt (data d) else updatedAt s)\<rparr>)"
  by (rule ext) (simp add: write_paths_def)

lemma save_password_modified:
  "PPassword \<in> modified d \<Longrightarrow> password (data d) = Some p \<Longrightarrow> \<not> isNew d \<Longrightarrow>
   save E now salt d db =
     (let d3 = set_passwordChangedAt (Some (now - 1000))
                 (set_updatedAt now (set_password (Some (bcrypt_hash E p salt))
                    (set_updatedAt now d)))
      in Inr (d3\<lparr>modified := {}, isNew := False\<rparr>,
              updateById (admin_id (data d3)) (write_paths d3) db))"
  by (auto simp add: save_def hashPasswordHook_def passwordChangedAtHook_def isModified_def
      set_updatedAt_def set_password_def set_passwordChangedAt_def Let_def)

lemma save_keeps_unmodified_password:
  assumes "PPassword \<notin> modified d" and "save E now salt d db = Inr (d', db')"
  shows "map password db' = map password db"
proof -
  have "map password (updateById i (write_paths x) db) = map password db"
    if "PPassword \<notin> modified x" for i x
    using that by (induction db) (simp_all add: write_paths_def)
  with assms show ?thesis
    by (auto simp add: save_password_unmodified Let_def set_updatedAt_def split: if_splits)
qed

section \<open>The login route\<close>

lemma login_wrong_password:
  assumes "List.find (\<lambda>x. email x = mail) db = Some a" "\<not> isLocked now a" "isActive a"
    "password a = Some h" "\<not> bcrypt_compare E pw h"
  shows "login E True now salt mail pw db =
           (Failure 401 ''Invalid credentials'', incLoginAttempts now a db)"
  using assms by (simp add: login_def loginHandler_def findOne_def hydrate_def comparePassword_def)

lemma login_locked:
  assumes "List.find (\<lambda>x. email x = mail) db = Some a" "isLocked now a"
  shows "login E True now salt mail pw db =
           (Failure 423
              ''Account is locked due to too many failed login attempts. Please try again later.'',
            db)"
  using assms by (simp add: login_def loginHandler_def findOne_def hydrate_def)

lemma incLoginAttempts_eq:
  "incLoginAttempts now a db =
     updateById (admin_id a)
       (\<lambda>s. if (case lockUntil a of None \<Rightarrow> False | Some t \<Rightarrow> t < now)
            then s\<lparr>lockUntil := None, loginAttempts := Some 1, updatedAt := now\<rparr>
            else if attempts a + 1 \<ge> 5 \<and> \<not> isLocked now a
            then s\<lparr>loginAttempts := Some (attempts s + 1),
                   lockUntil := Some (now + 2 * 60 * 60 * 1000), updatedAt := now\<rparr>
            else s\<lparr>loginAttempts := Some (attempts s + 1), updatedAt := now\<rparr>) db"
  by (auto simp add: incLoginAttempts_def updateOne_def Let_def)

lemma incLoginAttempts_ids:
  "map admin_id (incLoginAttempts now a db) = map admin_id db"
  unfolding incLoginAttempts_eq by (rule map_id_updateById) simp

lemma incLoginAttempts_by_email:
  assumes "distinct (map admin_id db)" "List.find (\<lambda>x. email x = mail) db = Some a"
  shows "List.find (\<lambda>x. email x = mail) (incLoginAttempts now a db) = Some
             (if (case lockUntil a of None \<Rightarrow> False | Some t \<Rightarrow> t < now)
              then a\<lparr>loginAttempts := Some 1, lockUntil := None, updatedAt := now\<rparr>
              else a\<lparr>loginAttempts := Some (attempts a + 1),
                     lockUntil := (if attempts a + 1 \<ge> 5 \<and> \<not> isLocked now a
                                   then Some (now + 2 * 60 * 60 * 1000) else lockUntil a),
                     updatedAt := now\<rparr>)"
proof -
  have "List.find (\<lambda>x. email x = mail) (incLoginAttempts now a db) =
        Some ((\<lambda>s. if (case lockUntil a of None \<Rightarrow> False | Some t \<Rightarrow> t < now)
            then s\<lparr>lockUntil := None, loginAttempts := Some 1, updatedAt := now\<rparr>
            else if attempts a + 1 \<ge> 5 \<and> \<not> isLocked now a
            then s\<lparr>loginAttempts := Some (attempts s + 1),
                   lockUntil := Some (now + 2 * 60 * 60 * 1000), updatedAt := now\<rparr>
            else s\<lparr>loginAttempts := Some (attempts s + 1), updatedAt := now\<rparr>) a)"
    unfolding incLoginAttempts_eq by (rule find_updateById_stable [OF assms]) simp
  then show ?thesis by simp
qed

lemma incLoginAttempts_by_id:
  assumes "distinct (map admin_id db)" "a \<in> set db"
  shows "List.find (\<lambda>x. admin_id x = admin_id a) (incLoginAttempts now a db) =
           Some
             (if (case lockUntil a of None \<Rightarrow> False | Some t \<Rightarrow> t < now)
              then a\<lparr>loginAttempts := Some 1, lockUntil := None, updatedAt := now\<rparr>
              else a\<lparr>loginAttempts := Some (attempts a + 1),
                     lockUntil := (if attempts a + 1 \<ge> 5 \<and> \<not> isLocked now a
                                   then Some (now + 2 * 60 * 60 * 1000) else lockUntil a),
                     updatedAt := now\<rparr>)"
proof -
  have "List.find (\<lambda>x. admin_id x = admin_id a) (incLoginAttempts now a db) =
        Some ((\<lambda>s. if (case lockUntil a of None \<Rightarrow> False | Some t \<Rightarrow> t < now)
            then s\<lparr>lockUntil := None, loginAttempts := Some 1, updatedAt := now\<rparr>
            else if attempts a + 1 \<ge> 5 \<and> \<not> isLocked now a
            then s\<lparr>loginAttempts := Some (attempts s + 1),
                   lockUntil := Some (now + 2 * 60 * 60 * 1000), updatedAt := now\<rparr>
            else s\<lparr>loginAttempts := Some (attempts s + 1), updatedAt := now\<rparr>) a)"
    unfolding incLoginAttempts_eq
    by (rule find_updateById_stable [OF assms(1) find_id_distinct [OF assms]]) simp
  then show ?thesis by simp
qed

lemma failed_login_unlocked_step:
  assumes "distinct (map admin_id db)" and "List.find (\<lambda>x. email x = mail) db = Some a"
    and "lockUntil a = None" and "isActive a" and "password a = Some h"
    and "\<not> bcrypt_compare E pw h"
  shows "\<exists>a'. distinct (map admin_id (snd (login E True now salt mail pw db))) \<and>
           List.find (\<lambda>x. email x = mail) (snd (login E True now salt mail pw db)) = Some a' \<and>
           isActive a' \<and> password a' = Some h \<and> attempts a' = attempts a + 1 \<and>
           lockUntil a' = (if attempts a + 1 \<ge> 5 then Some (now + 2 * 60 * 60 * 1000) else None)"
proof -
  from assms(3) have nl: "\<not> isLocked now a" by (simp add: isLocked_def)
  have run: "snd (login E True now salt mail pw db) = incLoginAttempts now a db"
    using login_wrong_password [OF assms(2) nl assms(4) assms(5) assms(6)] by simp
  have "List.find (\<lambda>x. email x = mail) (incLoginAttempts now a db) =
          Some (a\<lparr>loginAttempts := Some (attempts a + 1),
                  lockUntil := (if attempts a + 1 \<ge> 5
                                then Some (now + 2 * 60 * 60 * 1000) else None),
                  updatedAt := now\<rparr>)"
    using incLoginAttempts_by_email [OF assms(1) assms(2), of now] assms(3) nl by simp
  then show ?thesis
    using run assms by (simp add: incLoginAttempts_ids attempts_def)
qed

lemma login_success:
  assumes "List.find (\<lambda>x. email x = mail) db = Some a" "\<not> isLocked now a" "isActive a"
    "password a = Some h" "bcrypt_compare E pw h"
  shows "login E True now salt mail pw db =
           (LoginSuccessful (jwt_sign E (admin_id a) (role a))
              \<lparr>profile_id = admin_id a, profile_name = name a, profile_email = email a,
               profile_role = role a, profile_avatar = avatar a,
               profile_lastLogin = Some now\<rparr>,
            updateById (admin_id a)
              (\<lambda>s. s\<lparr>loginAttempts := None, lockUntil := None, lastLogin := Some now,
                     updatedAt := now\<rparr>) db)"
proof -
  have w: "(\<lambda>x. write_paths
               (set_updatedAt now (set_lastLogin (Some now) (hydrate True a)))
               (x\<lparr>loginAttempts := None, lockUntil := None, updatedAt := now\<rparr>)) =
           (\<lambda>s. s\<lparr>loginAttempts := None, lockUntil := None, lastLogin := Some now,
                  updatedAt := now\<rparr>)"
    by (rule ext) (simp add: write_paths_def set_updatedAt_def set_lastLogin_def hydrate_def)
  have s: "updateLastLogin E now salt (hydrate True a) (resetLoginAttempts now a db) =
        Inr ((set_updatedAt now (set_lastLogin (Some now) (hydrate True a)))
               \<lparr>modified := {}, isNew := False\<rparr>,
             updateById (admin_id a)
              (\<lambda>s. s\<lparr>loginAttempts := None, lockUntil := None, lastLogin := Some now,
                     updatedAt := now\<rparr>) db)"
    unfolding updateLastLogin_def resetLoginAttempts_def updateOne_def
    by (subst save_password_unmodified)
       (simp_all add: set_lastLogin_def hydrate_def set_updatedAt_def updateById_twice
          w [unfolded set_lastLogin_def hydrate_def set_updatedAt_def, simplified])
  show ?thesis
    using assms
    by (simp add: login_def loginHandler_def findOne_def comparePassword_def s
        generateAuthToken_def Let_def hydrate_def [of True a, THEN arg_cong [of _ _ data]]
        set_updatedAt_def set_lastLogin_def)
qed

lemma loginHandler_wrong_password:
  assumes "\<not> isLocked now (data d)" "isActive (data d)" "password (data d) = Some h"
    "\<not> bcrypt_compare E pw h"
  shows "loginHandler E now salt pw (Some d) db =
           (Failure 401 ''Invalid credentials'', incLoginAttempts now (data d) db)"
  using assms by (simp add: loginHandler_def comparePassword_def)

lemma incLoginAttempts_stored:
  assumes "List.find (\<lambda>x. admin_id x = admin_id a) db = Some s"
    and "\<not> (\<exists>t. lockUntil a = Some t \<and> t < now)"
  shows "List.find (\<lambda>x. admin_id x = admin_id a) (incLoginAttempts now a db) =
           Some (s\<lparr>loginAttempts := Some (attempts s + 1),
                   lockUntil := (if attempts a + 1 \<ge> 5 \<and> \<not> isLocked now a
                                 then Some (now + 2 * 60 * 60 * 1000) else lockUntil s),
                   updatedAt := now\<rparr>)"
proof -
  from assms(2) have ne: "\<not> (case lockUntil a of None \<Rightarrow> False | Some t \<Rightarrow> t < now)"
    by (cases "lockUntil a") auto
  show ?thesis
    unfolding incLoginAttempts_eq
    by (subst find_id_updateById) (simp_all add: ne assms(1))
qed

text \<open>
  Claim C1. A failed login attempt (validation passed, the email finds an account that is
  active and not locked, the password does not match) answers 401 and updates the stored
  account: when a previous lock has expired (\<open>lockUntil\<close> before \<open>now\<close>) the lock is
  cleared and the counter is set to 1; otherwise the counter is incremented by 1, and
  \<open>lockUntil\<close> becomes \<open>now\<close> plus two hours when the incremented counter reaches 5.
\<close>

theorem failed_login_counter:
  assumes "valid" and "distinct (map admin_id db)"
    and "List.find (\<lambda>x. email x = mail) db = Some a"
    and "\<not> isLocked now a" and "isActive a"
    and "password a = Some h" and "\<not> bcrypt_compare E pw h"
  shows "\<exists>db' a'. login E valid now salt mail pw db = (Failure 401 ''Invalid credentials'', db') \<and>
           List.find (\<lambda>x. admin_id x = admin_id a) db' = Some a' \<and>
           (if \<exists>t. lockUntil a = Some t \<and> t < now
            then lockUntil a' = None \<and> loginAttempts a' = Some 1
            else loginAttempts a' = Some (attempts a + 1) \<and>
                 lockUntil a' =
                   (if attempts a + 1 \<ge> 5 then Some (now + 2 * 60 * 60 * 1000) else lockUntil a))"
proof -
  from assms(3) have mem: "a \<in> set db" by (simp add: find_mem)
  have run: "login E valid now salt mail pw db =
               (Failure 401 ''Invalid credentials'', incLoginAttempts now a db)"
    using assms login_wrong_password [of mail db a now h E pw salt] by simp
  note got = incLoginAttempts_by_id [OF assms(2) mem, of now]
  show ?thesis
  proof (cases "\<exists>t. lockUntil a = Some t \<and> t < now")
    case True
    then have "List.find (\<lambda>x. admin_id x = admin_id a) (incLoginAttempts now a db) =
                 Some (a\<lparr>loginAttempts := Some 1, lockUntil := None, updatedAt := now\<rparr>)"
      using got by auto
    with run True show ?thesis by simp
  next
    case False
    then have "List.find (\<lambda>x. admin_id x = admin_id a) (incLoginAttempts now a db) =
                 Some (a\<lparr>loginAttempts := Some (attempts a + 1),
                         lockUntil := (if attempts a + 1 \<ge> 5
                                       then Some (now + 2 * 60 * 60 * 1000) else lockUntil a),
                         updatedAt := now\<rparr>)"
      using got assms(4) by (cases "lockUntil a") auto
    with run False show ?thesis by auto
  qed
qed

theorem failed_login_counter_witness:
  "login example_env True 1000 ''s'' ''bob@x.io'' ''wrong12'' [alice, bob] =
     (Failure 401 ''Invalid credentials'',
      [alice, bob\<lparr>loginAttempts := Some 4, updatedAt := 1000\<rparr>]) \<and>
   (\<exists>db' a'. login example_env True 1000 ''s'' ''bob@x.io'' ''wrong12'' [alice, bob] =
        (Failure 401 ''Invalid credentials'', db') \<and>
      List.find (\<lambda>x. admin_id x = admin_id bob) db' = Some a' \<and>
      loginAttempts a' = Some 4 \<and> lockUntil a' = None) \<and>
   login example_env True 1000 ''s'' ''bob@x.io'' ''wrong12''
     [alice, bob\<lparr>loginAttempts := Some 4\<rparr>] =
     (Failure 401 ''Invalid credentials'',
      [alice, bob\<lparr>loginAttempts := Some 5, lockUntil := Some 7201000, updatedAt := 1000\<rparr>]) \<and>
   login example_env True 1000 ''s'' ''bob@x.io'' ''wrong12''
     [alice, bob\<lparr>loginAttempts := Some 7, lockUntil := Some 500\<rparr>] =
     (Failure 401 ''Invalid credentials'',
      [alice, bob\<lparr>loginAttempts := Some 1, lockUntil := None, updatedAt := 1000\<rparr>])"
proof -
  have more: "login example_env True 1000 ''s'' ''bob@x.io'' ''wrong12''
     [alice, bob\<lparr>loginAttempts := Some 4\<rparr>] =
     (Failure 401 ''Invalid credentials'',
      [alice, bob\<lparr>loginAttempts := Some 5, lockUntil := Some 7201000, updatedAt := 1000\<rparr>])"
    "login example_env True 1000 ''s'' ''bob@x.io'' ''wrong12''
     [alice, bob\<lparr>loginAttempts := Some 7, lockUntil := Some 500\<rparr>] =
     (Failure 401 ''Invalid credentials'',
      [alice, bob\<lparr>loginAttempts := Some 1, lockUntil := None, updatedAt := 1000\<rparr>])"
    by (simp_all add: login_def loginHandler_def findOne_def hydrate_def comparePassword_def
        incLoginAttempts_def updateOne_def isLocked_def attempts_def example_env_def alice_def
        bob_def)
  have run: "login example_env True 1000 ''s'' ''bob@x.io'' ''wrong12'' [alice, bob] =
     (Failure 401 ''Invalid credentials'',
      [alice, bob\<lparr>loginAttempts := Some 4, updatedAt := 1000\<rparr>])"
    by (simp add: login_def loginHandler_def findOne_def hydrate_def comparePassword_def
        incLoginAttempts_def updateOne_def isLocked_def attempts_def example_env_def alice_def
        bob_def)
  have "\<exists>db' a'. login example_env True 1000 ''s'' ''bob@x.io'' ''wrong12'' [alice, bob] =
        (Failure 401 ''Invalid credentials'', db') \<and>
      List.find (\<lambda>x. admin_id x = admin_id bob) db' = Some a' \<and>
      (if \<exists>t. lockUntil bob = Some t \<and> t < 1000
            then lockUntil a' = None \<and> loginAttempts a' = Some 1
            else loginAttempts a' = Some (attempts bob + 1) \<and>
                 lockUntil a' =
                   (if attempts bob + 1 \<ge> 5 then Some (1000 + 2 * 60 * 60 * 1000)
                    else lockUntil bob))"
    by (rule failed_login_counter [where h = "''#secret2''"])
       (simp_all add: alice_def bob_def isLocked_def example_env_def)
  then have "\<exists>db' a'. login example_env True 1000 ''s'' ''bob@x.io'' ''wrong12'' [alice, bob] =
        (Failure 401 ''Invalid credentials'', db') \<and>
      List.find (\<lambda>x. admin_id x = admin_id bob) db' = Some a' \<and>
      loginAttempts a' = Some 4 \<and> lockUntil a' = None"
    by (simp add: bob_def attempts_def)
  with run more show ?thesis by blast
qed

text \<open>
  Claim C2. A login attempt (validation passed) against an account whose \<open>lockUntil\<close> is
  set and after \<open>now\<close> answers 423 and leaves the whole store as it was, whatever the
  password, so the attempt is not counted and \<open>loginAttempts\<close>, \<open>lockUntil\<close> and
  \<open>lastLogin\<close> keep their values. In particular, after five failed attempts in a row on
  an active account that started with counter 0 and no lock, a sixth attempt earlier than
  two hours after the fifth answers 423 with any password, the right one included.
\<close>

theorem locked_login_refused:
  "(valid \<and> List.find (\<lambda>x. email x = mail) db = Some a \<and> lockUntil a = Some t \<and> now < t \<longrightarrow>
      login E valid now salt mail pw db =
        (Failure 423
           ''Account is locked due to too many failed login attempts. Please try again later.'',
         db)) \<and>
   (distinct (map admin_id db) \<and> List.find (\<lambda>x. email x = mail) db = Some a \<and>
    attempts a = 0 \<and> lockUntil a = None \<and> isActive a \<and> password a = Some h \<and>
    \<not> bcrypt_compare E p1 h \<and> \<not> bcrypt_compare E p2 h \<and> \<not> bcrypt_compare E p3 h \<and>
    \<not> bcrypt_compare E p4 h \<and> \<not> bcrypt_compare E p5 h \<and> t6 < t5 + 2 * 60 * 60 * 1000 \<longrightarrow>
      login E True t6 salt mail pw
        (loginSequence E salt mail [(t1, p1), (t2, p2), (t3, p3), (t4, p4), (t5, p5)] db) =
        (Failure 423
           ''Account is locked due to too many failed login attempts. Please try again later.'',
         loginSequence E salt mail [(t1, p1), (t2, p2), (t3, p3), (t4, p4), (t5, p5)] db))"
proof (intro conjI impI)
  assume "valid \<and> List.find (\<lambda>x. email x = mail) db = Some a \<and> lockUntil a = Some t \<and> now < t"
  then show "login E valid now salt mail pw db =
        (Failure 423
           ''Account is locked due to too many failed login attempts. Please try again later.'',
         db)"
    using login_locked [of mail db a now E salt pw] by (simp add: isLocked_def)
next
  assume h: "distinct (map admin_id db) \<and> List.find (\<lambda>x. email x = mail) db = Some a \<and>
    attempts a = 0 \<and> lockUntil a = None \<and> isActive a \<and> password a = Some h \<and>
    \<not> bcrypt_compare E p1 h \<and> \<not> bcrypt_compare E p2 h \<and> \<not> bcrypt_compare E p3 h \<and>
    \<not> bcrypt_compare E p4 h \<and> \<not> bcrypt_compare E p5 h \<and> t6 < t5 + 2 * 60 * 60 * 1000"
  define db1 where "db1 = snd (login E True t1 salt mail p1 db)"
  define db2 where "db2 = snd (login E True t2 salt mail p2 db1)"
  define db3 where "db3 = snd (login E True t3 salt mail p3 db2)"
  define db4 where "db4 = snd (login E True t4 salt mail p4 db3)"
  define db5 where "db5 = snd (login E True t5 salt mail p5 db4)"
  have seq: "loginSequence E salt mail [(t1, p1), (t2, p2), (t3, p3), (t4, p4), (t5, p5)] db = db5"
    by (simp add: db1_def db2_def db3_def db4_def db5_def)
  from h failed_login_unlocked_step [of db mail a h E p1 t1 salt]
  obtain a1 where s1: "distinct (map admin_id db1)"
      "List.find (\<lambda>x. email x = mail) db1 = Some a1" "isActive a1" "password a1 = Some h"
      "attempts a1 = 1" "lockUntil a1 = None"
    unfolding db1_def by auto
  from h s1 failed_login_unlocked_step [of db1 mail a1 h E p2 t2 salt]
  obtain a2 where s2: "distinct (map admin_id db2)"
      "List.find (\<lambda>x. email x = mail) db2 = Some a2" "isActive a2" "password a2 = Some h"
      "attempts a2 = 2" "lockUntil a2 = None"
    unfolding db2_def by auto
  from h s2 failed_login_unlocked_step [of db2 mail a2 h E p3 t3 salt]
  obtain a3 where s3: "distinct (map admin_id db3)"
      "List.find (\<lambda>x. email x = mail) db3 = Some a3" "isActive a3" "password a3 = Some h"
      "attempts a3 = 3" "lockUntil a3 = None"
    unfolding db3_def by auto
  from h s3 failed_login_unlocked_step [of db3 mail a3 h E p4 t4 salt]
  obtain a4 where s4: "distinct (map admin_id db4)"
      "List.find (\<lambda>x. email x = mail) db4 = Some a4" "isActive a4" "password a4 = Some h"
      "attempts a4 = 4" "lockUntil a4 = None"
    unfolding db4_def by auto
  from h s4 failed_login_unlocked_step [of db4 mail a4 h E p5 t5 salt]
  obtain a5 where s5: "List.find (\<lambda>x. email x = mail) db5 = Some a5"
      "lockUntil a5 = Some (t5 + 2 * 60 * 60 * 1000)"
    unfolding db5_def by auto
  from h s5 have "isLocked t6 a5" by (simp add: isLocked_def)
  with s5(1) show "login E True t6 salt mail pw
        (loginSequence E salt mail [(t1, p1), (t2, p2), (t3, p3), (t4, p4), (t5, p5)] db) =
        (Failure 423
           ''Account is locked due to too many failed login attempts. Please try again later.'',
         loginSequence E salt mail [(t1, p1), (t2, p2), (t3, p3), (t4, p4), (t5, p5)] db)"
    unfolding seq by (simp add: login_locked)
qed

theorem locked_login_refused_witness:
  "login example_env True 1000 ''s'' ''alice@x.io'' ''secret1''
     [alice\<lparr>lockUntil := Some 5000\<rparr>, bob] =
     (Failure 423
        ''Account is locked due to too many failed login attempts. Please try again later.'',
      [alice\<lparr>lockUntil := Some 5000\<rparr>, bob]) \<and>
   login example_env True 6000 ''s'' ''alice@x.io'' ''secret1''
     (loginSequence example_env ''s'' ''alice@x.io''
        [(1000, ''wrong1''), (2000, ''wrong2''), (3000, ''wrong3''), (4000, ''wrong4''),
         (5000, ''wrong5'')] [alice, bob]) =
     (Failure 423
        ''Account is locked due to too many failed login attempts. Please try again later.'',
      loginSequence example_env ''s'' ''alice@x.io''
        [(1000, ''wrong1''), (2000, ''wrong2''), (3000, ''wrong3''), (4000, ''wrong4''),
         (5000, ''wrong5'')] [alice, bob])"
proof -
  have h1: "True \<and>
      List.find (\<lambda>x. email x = ''alice@x.io'') [alice\<lparr>lockUntil := Some 5000\<rparr>, bob] =
        Some (alice\<lparr>lockUntil := Some 5000\<rparr>) \<and>
      lockUntil (alice\<lparr>lockUntil := Some 5000\<rparr>) = Some 5000 \<and> (1000::int) < 5000"
    by (simp add: alice_def)
  have h2: "distinct (map admin_id [alice, bob]) \<and>
      List.find (\<lambda>x. email x = ''alice@x.io'') [alice, bob] = Some alice \<and>
      attempts alice = 0 \<and> lockUntil alice = None \<and> isActive alice \<and>
      password alice = Some ''#secret1'' \<and>
      \<not> bcrypt_compare example_env ''wrong1'' ''#secret1'' \<and>
      \<not> bcrypt_compare example_env ''wrong2'' ''#secret1'' \<and>
      \<not> bcrypt_compare example_env ''wrong3'' ''#secret1'' \<and>
      \<not> bcrypt_compare example_env ''wrong4'' ''#secret1'' \<and>
      \<not> bcrypt_compare example_env ''wrong5'' ''#secret1'' \<and>
      (6000::int) < 5000 + 2 * 60 * 60 * 1000"
    by (simp add: alice_def bob_def attempts_def example_env_def)
  from locked_login_refused [THEN conjunct1, THEN mp, OF h1]
       locked_login_refused [THEN conjunct2, THEN mp, OF h2]
  show ?thesis by simp
qed

text \<open>
  Claim C3. A successful authentication (validation passed, the account found is active
  and not locked, the password matches) answers with the token signed over the account's
  identifier and role and with the profile, and in the stored account the counter reads
  0 (the path is unset), \<open>lockUntil\<close> is unset and \<open>lastLogin\<close> is \<open>now\<close>.
\<close>

theorem successful_login_resets:
  assumes "valid" and "distinct (map admin_id db)"
    and "List.find (\<lambda>x. email x = mail) db = Some a"
    and "\<not> isLocked now a" and "isActive a"
    and "password a = Some h" and "bcrypt_compare E pw h"
  shows "\<exists>db' a'. login E valid now salt mail pw db =
             (LoginSuccessful (jwt_sign E (admin_id a) (role a))
                \<lparr>profile_id = admin_id a, profile_name = name a, profile_email = email a,
                 profile_role = role a, profile_avatar = avatar a,
                 profile_lastLogin = Some now\<rparr>, db') \<and>
           List.find (\<lambda>x. admin_id x = admin_id a) db' = Some a' \<and>
           attempts a' = 0 \<and> lockUntil a' = None \<and> lastLogin a' = Some now"
proof -
  from assms(3) have mem: "a \<in> set db" by (simp add: find_mem)
  have run: "login E valid now salt mail pw db =
           (LoginSuccessful (jwt_sign E (admin_id a) (role a))
              \<lparr>profile_id = admin_id a, profile_name = name a, profile_email = email a,
               profile_role = role a, profile_avatar = avatar a,
               profile_lastLogin = Some now\<rparr>,
            updateById (admin_id a)
              (\<lambda>s. s\<lparr>loginAttempts := None, lockUntil := None, lastLogin := Some now,
                     updatedAt := now\<rparr>) db)"
    using assms login_success [of mail db a now h E pw salt] by simp
  have "List.find (\<lambda>x. admin_id x = admin_id a)
          (updateById (admin_id a)
              (\<lambda>s. s\<lparr>loginAttempts := None, lockUntil := None, lastLogin := Some now,
                     updatedAt := now\<rparr>) db) =
        Some (a\<lparr>loginAttempts := None, lockUntil := None, lastLogin := Some now,
                updatedAt := now\<rparr>)"
    by (rule find_updateById_stable [OF assms(2) find_id_distinct [OF assms(2) mem]]) simp
  with run show ?thesis by (simp add: attempts_def)
qed

theorem successful_login_resets_witness:
  "\<exists>db' a'. login example_env True 9000 ''s'' ''bob@x.io'' ''secret2''
                [alice, bob\<lparr>lockUntil := Some 8000\<rparr>] =
             (LoginSuccessful ''jwt:admin''
                \<lparr>profile_id = 2, profile_name = ''Bob'', profile_email = ''bob@x.io'',
                 profile_role = Admin, profile_avatar = None,
                 profile_lastLogin = Some 9000\<rparr>, db') \<and>
           List.find (\<lambda>x. admin_id x = 2) db' = Some a' \<and>
           attempts a' = 0 \<and> lockUntil a' = None \<and> lastLogin a' = Some 9000"
  using successful_login_resets [where valid = True and mail = "''bob@x.io''"
      and db = "[alice, bob\<lparr>lockUntil := Some 8000\<rparr>]" and a = "bob\<lparr>lockUntil := Some 8000\<rparr>"
      and now = 9000 and h = "''#secret2''" and E = example_env and pw = "''secret2''"
      and salt = "''s''"]
  by (simp add: alice_def bob_def isLocked_def example_env_def)

text \<open>
  Claim C7, as the code has it. The answer to a login with an email that matches no
  account and the answer to a login whose account exists, is active and is not locked,
  with a password that does not match, are the same: status 401 with the error
  \<^verbatim>\<open>Invalid credentials\<close>. The lock and the active flag are checked before the password,
  and their answers are other ones.
\<close>

theorem unknown_email_same_as_wrong_password:
  assumes "valid"
    and "List.find (\<lambda>x. email x = unknown) db = None"
    and "List.find (\<lambda>x. email x = known) db = Some a"
    and "\<not> isLocked now a" and "isActive a"
    and "password a = Some h" and "\<not> bcrypt_compare E pwK h"
  shows "fst (login E valid now salt unknown pwU db) = fst (login E valid now salt known pwK db) \<and>
         fst (login E valid now salt unknown pwU db) = Failure 401 ''Invalid credentials'' \<and>
         fst (login E valid now salt known pwK db) = Failure 401 ''Invalid credentials''"
proof -
  have "login E valid now salt unknown pwU db = (Failure 401 ''Invalid credentials'', db)"
    using assms(1,2) by (simp add: login_def loginHandler_def findOne_def)
  moreover have "login E valid now salt known pwK db =
      (Failure 401 ''Invalid credentials'', incLoginAttempts now a db)"
    using assms login_wrong_password [of known db a now h E pwK salt] by simp
  ultimately show ?thesis by simp
qed

theorem unknown_email_same_as_wrong_password_witness:
  "fst (login example_env True 1000 ''s'' ''carol@x.io'' ''secret3'' [alice, bob]) =
     fst (login example_env True 1000 ''s'' ''bob@x.io'' ''wrong12'' [alice, bob]) \<and>
   fst (login example_env True 1000 ''s'' ''carol@x.io'' ''secret3'' [alice, bob]) =
     Failure 401 ''Invalid credentials'' \<and>
   fst (login example_env True 1000 ''s'' ''bob@x.io'' ''wrong12'' [alice, bob]) =
     Failure 401 ''Invalid credentials''"
  using unknown_email_same_as_wrong_password [where valid = True and unknown = "''carol@x.io''"
      and known = "''bob@x.io''" and db = "[alice, bob]" and a = bob and now = 1000
      and h = "''#secret2''" and E = example_env and pwK = "''wrong12''" and pwU = "''secret3''"
      and salt = "''s''"]
  by (simp add: alice_def bob_def isLocked_def example_env_def)

text \<open>
  Not every existing account with a wrong password answers like an unknown email: a
  locked one answers 423 and a deactivated one 401 \<^verbatim>\<open>Account is deactivated\<close>.
\<close>

theorem locked_or_inactive_account_is_told_apart:
  "\<not> bcrypt_compare example_env ''wrong12'' ''#secret2'' \<and>
   fst (login example_env True 1000 ''s'' ''carol@x.io'' ''wrong12''
          [alice, bob\<lparr>lockUntil := Some 5000\<rparr>]) =
     Failure 401 ''Invalid credentials'' \<and>
   fst (login example_env True 1000 ''s'' ''bob@x.io'' ''wrong12''
          [alice, bob\<lparr>lockUntil := Some 5000\<rparr>]) =
     Failure 423
       ''Account is locked due to too many failed login attempts. Please try again later.'' \<and>
   fst (login example_env True 1000 ''s'' ''carol@x.io'' ''wrong12''
          [alice, bob\<lparr>isActive := False\<rparr>]) =
     Failure 401 ''Invalid credentials'' \<and>
   fst (login example_env True 1000 ''s'' ''bob@x.io'' ''wrong12''
          [alice, bob\<lparr>isActive := False\<rparr>]) =
     Failure 401 ''Account is deactivated''"
  by (simp add: login_def loginHandler_def findOne_def hydrate_def isLocked_def
      example_env_def alice_def bob_def)

text \<open>
  Claim C9, as the code has it. The handler reads the account, compares the password and
  only then updates the store, and the update is decided on the copy it read. For any
  number of wrong-password requests that each hold a copy of the account (not locked, no
  expired lock, active), handled in any order after their reads, the stored counter rises
  by exactly the number of requests, since \<^verbatim>\<open>$inc\<close> works on the stored value. The lock is
  decided on the copies: when every copy has a counter below 4, \<open>lockUntil\<close> stays as it
  was, whatever the stored counter has reached.
\<close>

theorem stale_copies_count_exactly:
  assumes "List.find (\<lambda>x. admin_id x = i) db = Some s"
    and "\<forall>(now, pw, d) \<in> set reqs.
           admin_id (data d) = i \<and> \<not> isLocked now (data d) \<and> isActive (data d) \<and>
           (\<exists>h. password (data d) = Some h \<and> \<not> bcrypt_compare E pw h) \<and>
           \<not> (\<exists>t. lockUntil (data d) = Some t \<and> t < now)"
  shows "\<exists>s'. List.find (\<lambda>x. admin_id x = i) (loginHandlers E salt reqs db) = Some s' \<and>
           attempts s' = attempts s + int (length reqs) \<and>
           ((\<forall>(now, pw, d) \<in> set reqs. attempts (data d) + 1 < 5) \<longrightarrow>
              lockUntil s' = lockUntil s)"
  using assms
proof (induction reqs arbitrary: db s)
  case Nil
  then show ?case by simp
next
  case (Cons r reqs)
  obtain now pw d where r: "r = (now, pw, d)" by (cases r) auto
  from Cons.prems(2) r obtain h where d:
      "admin_id (data d) = i" "\<not> isLocked now (data d)" "isActive (data d)"
      "password (data d) = Some h" "\<not> bcrypt_compare E pw h"
      "\<not> (\<exists>t. lockUntil (data d) = Some t \<and> t < now)"
    by auto
  define s1 where "s1 = s\<lparr>loginAttempts := Some (attempts s + 1),
                   lockUntil := (if attempts (data d) + 1 \<ge> 5 \<and> \<not> isLocked now (data d)
                                 then Some (now + 2 * 60 * 60 * 1000) else lockUntil s),
                   updatedAt := now\<rparr>"
  define db1 where "db1 = incLoginAttempts now (data d) db"
  have step: "snd (loginHandler E now salt pw (Some d) db) = db1"
    using loginHandler_wrong_password [OF d(2,3,4,5)] by (simp add: db1_def)
  have f1: "List.find (\<lambda>x. admin_id x = i) db1 = Some s1"
    using incLoginAttempts_stored [of "data d" db s now] Cons.prems(1) d(1,6)
    by (simp add: db1_def s1_def)
  from Cons.prems(2) have rest: "\<forall>(now, pw, d) \<in> set reqs.
           admin_id (data d) = i \<and> \<not> isLocked now (data d) \<and> isActive (data d) \<and>
           (\<exists>h. password (data d) = Some h \<and> \<not> bcrypt_compare E pw h) \<and>
           \<not> (\<exists>t. lockUntil (data d) = Some t \<and> t < now)"
    by simp
  from Cons.IH [OF f1 rest] obtain s' where s':
      "List.find (\<lambda>x. admin_id x = i) (loginHandlers E salt reqs db1) = Some s'"
      "attempts s' = attempts s1 + int (length reqs)"
      "(\<forall>(now, pw, d) \<in> set reqs. attempts (data d) + 1 < 5) \<longrightarrow> lockUntil s' = lockUntil s1"
    by blast
  have a1: "attempts s1 = attempts s + 1" by (simp add: s1_def attempts_def)
  have l1: "attempts (data d) + 1 < 5 \<Longrightarrow> lockUntil s1 = lockUntil s" by (simp add: s1_def)
  from s' a1 l1 show ?case
    by (simp add: r step) 
qed

theorem stale_copies_count_exactly_witness:
  "\<exists>s'. List.find (\<lambda>x. admin_id x = 2)
          (loginHandlers example_env ''s''
             [(1000, ''wrong1'', hydrate True bob), (1000, ''wrong2'', hydrate True bob)]
             [alice, bob]) = Some s' \<and>
        attempts s' = 5 \<and> lockUntil s' = None"
proof -
  have h1: "List.find (\<lambda>x. admin_id x = 2) [alice, bob] = Some bob"
    by (simp add: alice_def bob_def)
  have h2: "\<forall>(now, pw, d) \<in> set [(1000, ''wrong1'', hydrate True bob),
                                  (1000, ''wrong2'', hydrate True bob)].
           admin_id (data d) = 2 \<and> \<not> isLocked now (data d) \<and> isActive (data d) \<and>
           (\<exists>h. password (data d) = Some h \<and> \<not> bcrypt_compare example_env pw h) \<and>
           \<not> (\<exists>t. lockUntil (data d) = Some t \<and> t < now)"
    by (simp add: hydrate_def bob_def isLocked_def example_env_def)
  from stale_copies_count_exactly [OF h1 h2, of "''s''"]
  show ?thesis by (simp add: hydrate_def bob_def attempts_def)
qed

text \<open>
  The step is not atomic. Two requests read the account with counter 3, then both fail:
  the stored counter is 5 and no lock is set, where the same two requests one after the
  other set the lock. Two requests that both read an expired lock both set the counter
  to 1, where one after the other they leave it at 2.
\<close>

theorem stale_copies_delay_lock:
  "findOne True (\<lambda>a. email a = ''bob@x.io'') [alice, bob] = Some (hydrate True bob) \<and>
   loginHandlers example_env ''s''
     [(1000, ''wrong1'', hydrate True bob), (1000, ''wrong2'', hydrate True bob)] [alice, bob] =
     [alice, bob\<lparr>loginAttempts := Some 5, updatedAt := 1000\<rparr>] \<and>
   loginSequence example_env ''s'' ''bob@x.io'' [(1000, ''wrong1''), (1000, ''wrong2'')]
     [alice, bob] =
     [alice, bob\<lparr>loginAttempts := Some 5, lockUntil := Some 7201000, updatedAt := 1000\<rparr>] \<and>
   loginHandlers example_env ''s''
     [(1000, ''wrong1'', hydrate True (bob\<lparr>loginAttempts := Some 5, lockUntil := Some 500\<rparr>)),
      (1000, ''wrong2'', hydrate True (bob\<lparr>loginAttempts := Some 5, lockUntil := Some 500\<rparr>))]
     [alice, bob\<lparr>loginAttempts := Some 5, lockUntil := Some 500\<rparr>] =
     [alice, bob\<lparr>loginAttempts := Some 1, updatedAt := 1000\<rparr>] \<and>
   loginSequence example_env ''s'' ''bob@x.io'' [(1000, ''wrong1''), (1000, ''wrong2'')]
     [alice, bob\<lparr>loginAttempts := Some 5, lockUntil := Some 500\<rparr>] =
     [alice, bob\<lparr>loginAttempts := Some 2, updatedAt := 1000\<rparr>]"
  by (simp add: login_def loginHandler_def findOne_def hydrate_def comparePassword_def
      incLoginAttempts_def updateOne_def isLocked_def attempts_def example_env_def alice_def
      bob_def)

section \<open>The password hook\<close>

lemma hashPasswordHook_unmodified:
  assumes "\<not> isModified PPassword d" and "password (data d) = Some h"
  shows "hashPasswordHook E now salt d =
           \<lparr>next_docs = [d, set_updatedAt now (set_password (Some (bcrypt_hash E h salt)) d)],
            final_doc = set_updatedAt now (set_password (Some (bcrypt_hash E h salt)) d),
            threw = False\<rparr>"
  using assms by (simp add: hashPasswordHook_def Let_def)

text \<open>
  Claim C4. The claim is that a save hashes the password if and only if the password was
  modified, and once. The hook does not do that: on the document of a successful login,
  whose password is loaded and not modified (only \<open>lastLogin\<close> is assigned), the body
  calls \<^verbatim>\<open>next()\<close>, goes on, replaces the stored hash in the document by the hash of that
  hash, marks the password modified and calls \<^verbatim>\<open>next()\<close> a second time.
\<close>

theorem unmodified_password_is_hashed_again:
  "\<not> isModified PPassword (set_lastLogin (Some 1000) (hydrate True alice)) \<and>
   password (data (set_lastLogin (Some 1000) (hydrate True alice))) = Some ''#secret1'' \<and>
   password (data (final_doc
     (hashPasswordHook example_env 1000 ''s'' (set_lastLogin (Some 1000) (hydrate True alice))))) =
     Some ''##secret1'' \<and>
   isModified PPassword (final_doc
     (hashPasswordHook example_env 1000 ''s'' (set_lastLogin (Some 1000) (hydrate True alice)))) \<and>
   length (next_docs
     (hashPasswordHook example_env 1000 ''s'' (set_lastLogin (Some 1000) (hydrate True alice)))) = 2"
  by (simp add: hashPasswordHook_def isModified_def set_lastLogin_def set_password_def
      set_updatedAt_def hydrate_def alice_def example_env_def Let_def)

section \<open>The password reset routes\<close>

lemma sendPasswordResetEmail_throws: "sendPasswordResetEmail E mail tok = Inl TypeError"
  by (simp add: sendPasswordResetEmail_def createTransporter_def nodemailer_def)

lemma forgotPassword_found:
  assumes "List.find (\<lambda>x. email x = mail) db = Some a"
  shows "forgotPassword E True now salt tok mail db =
           (case sendPasswordResetEmail E mail tok of
              Inr _ \<Rightarrow>
                (Success ''Password reset email sent'',
                 updateById (admin_id a)
                   (\<lambda>s. s\<lparr>passwordResetToken := Some (sha256_hex E tok),
                          passwordResetExpires := Some (now + 60 * 60 * 1000),
                          updatedAt := now\<rparr>) db)
            | Inl _ \<Rightarrow>
                (Failure 500 ''Email could not be sent'',
                 updateById (admin_id a)
                   (\<lambda>s. s\<lparr>passwordResetToken := None, passwordResetExpires := None,
                          updatedAt := now\<rparr>) db))"
  using assms
  by (simp add: forgotPassword_def findOne_def save_password_unmodified hydrate_def
      set_passwordResetToken_def set_passwordResetExpires_def set_updatedAt_def Let_def
      write_paths_fun updateById_twice split: sum.splits)

lemma resetPassword_found:
  assumes "List.find
             (\<lambda>x. passwordResetToken x = Some (sha256_hex E tok) \<and>
                  (case passwordResetExpires x of None \<Rightarrow> False | Some e \<Rightarrow> e > now)) db =
           Some a"
  shows "resetPassword E True now salt tok pw db =
           (Success ''Password reset successful'',
            updateById (admin_id a)
              (\<lambda>s. s\<lparr>password := Some (bcrypt_hash E pw salt),
                     passwordChangedAt := Some (now - 1000), passwordResetToken := None,
                     passwordResetExpires := None, updatedAt := now\<rparr>) db)"
proof -
  have sv: "save E now salt
          (set_passwordResetExpires None
            (set_passwordResetToken None (set_password (Some pw) (hydrate False a)))) db =
        Inr ((set_passwordChangedAt (Some (now - 1000))
                 (set_updatedAt now (set_password (Some (bcrypt_hash E pw salt))
                    (set_updatedAt now (set_passwordResetExpires None
            (set_passwordResetToken None (set_password (Some pw) (hydrate False a))))))))
               \<lparr>modified := {}, isNew := False\<rparr>,
             updateById (admin_id a)
              (\<lambda>s. s\<lparr>password := Some (bcrypt_hash E pw salt),
                     passwordChangedAt := Some (now - 1000), passwordResetToken := None,
                     passwordResetExpires := None, updatedAt := now\<rparr>) db)"
    by (subst save_password_modified [where p = pw])
       (simp_all add: hydrate_def set_passwordResetToken_def set_passwordResetExpires_def
          set_updatedAt_def set_password_def set_passwordChangedAt_def Let_def write_paths_fun)
  show ?thesis
    using assms by (simp add: resetPassword_def findOne_def sv)
qed

lemma resetPassword_none:
  assumes "List.find
             (\<lambda>x. passwordResetToken x = Some (sha256_hex E tok) \<and>
                  (case passwordResetExpires x of None \<Rightarrow> False | Some e \<Rightarrow> e > now)) db =
           None"
  shows "resetPassword E True now salt tok pw db =
           (Failure 400 ''Invalid or expired reset token'', db)"
  using assms by (simp add: resetPassword_def findOne_def)

lemma updateById_same: "updateById i (\<lambda>x. x) db = db"
  by (induction db) auto

lemma find_only:
  assumes "distinct (map admin_id (db::db))" and "a \<in> set db" and "P a"
    and "\<And>x. x \<in> set db \<Longrightarrow> x \<noteq> a \<Longrightarrow> \<not> P x"
  shows "List.find P db = Some a"
  using find_updateById_only [of db a P "\<lambda>x. x", OF assms(1) assms(2) assms(4)] assms(3)
  by (simp add: updateById_same)

text \<open>
  The reset route on its own is single use: on a store with distinct identifiers where
  one account holds the digest of the token with an expiry, a reset with the raw token
  before the expiry succeeds and clears digest and expiry, every further reset with that
  token answers 400, and so does a first reset at or after the expiry.
\<close>

lemma reset_with_stored_digest:
  assumes "distinct (map admin_id db)" and "a \<in> set db"
    and "passwordResetToken a = Some (sha256_hex E tok)"
    and "passwordResetExpires a = Some expiry"
    and "\<forall>b\<in>set db. b \<noteq> a \<longrightarrow> passwordResetToken b \<noteq> Some (sha256_hex E tok)"
  shows "later < expiry \<longrightarrow>
           (\<exists>db2 a2.
              resetPassword E True later saltR tok pw db =
                (Success ''Password reset successful'', db2) \<and>
              List.find (\<lambda>x. admin_id x = admin_id a) db2 = Some a2 \<and>
              password a2 = Some (bcrypt_hash E pw saltR) \<and>
              passwordResetToken a2 = None \<and> passwordResetExpires a2 = None \<and>
              (\<forall>again saltA pwA.
                 resetPassword E True again saltA tok pwA db2 =
                   (Failure 400 ''Invalid or expired reset token'', db2)))"
    and "expiry \<le> later \<longrightarrow>
           resetPassword E True later saltR tok pw db =
             (Failure 400 ''Invalid or expired reset token'', db)"
proof -
  define f2 where "f2 = (\<lambda>s::admin. s\<lparr>password := Some (bcrypt_hash E pw saltR),
                     passwordChangedAt := Some (later - 1000), passwordResetToken := None,
                     passwordResetExpires := None, updatedAt := later\<rparr>)"
  define db2 where "db2 = updateById (admin_id a) f2 db"
  define P where "P = (\<lambda>t (x::admin). passwordResetToken x = Some (sha256_hex E tok) \<and>
                  (case passwordResetExpires x of None \<Rightarrow> False | Some e \<Rightarrow> e > (t::int)))"
  have others: "\<And>t x. x \<in> set db \<Longrightarrow> x \<noteq> a \<Longrightarrow> \<not> P t x"
    using assms(5) by (simp add: P_def)
  show "later < expiry \<longrightarrow>
           (\<exists>db2 a2.
              resetPassword E True later saltR tok pw db =
                (Success ''Password reset successful'', db2) \<and>
              List.find (\<lambda>x. admin_id x = admin_id a) db2 = Some a2 \<and>
              password a2 = Some (bcrypt_hash E pw saltR) \<and>
              passwordResetToken a2 = None \<and> passwordResetExpires a2 = None \<and>
              (\<forall>again saltA pwA.
                 resetPassword E True again saltA tok pwA db2 =
                   (Failure 400 ''Invalid or expired reset token'', db2)))"
  proof
    assume lt: "later < expiry"
    have "P later a" using assms(3,4) lt by (simp add: P_def)
    then have found: "List.find (P later) db = Some a"
      by (rule find_only [OF assms(1) assms(2) _ others])
    have r2: "resetPassword E True later saltR tok pw db =
          (Success ''Password reset successful'', db2)"
      using resetPassword_found [of E tok later db a saltR pw] found
      by (simp add: P_def f2_def db2_def)
    have "List.find (\<lambda>x. admin_id x = admin_id a) db2 = Some (f2 a)"
      unfolding db2_def
      by (rule find_updateById_stable [OF assms(1) find_id_distinct [OF assms(1) assms(2)]])
         (simp add: f2_def)
    then have st: "List.find (\<lambda>x. admin_id x = admin_id a) db2 = Some (f2 a)"
        "password (f2 a) = Some (bcrypt_hash E pw saltR)"
        "passwordResetToken (f2 a) = None" "passwordResetExpires (f2 a) = None"
      by (simp_all add: f2_def)
    have r3: "resetPassword E True again saltA tok pwA db2 =
                (Failure 400 ''Invalid or expired reset token'', db2)" for again saltA pwA
    proof -
      have "List.find (P again) db2 = (if P again (f2 a) then Some (f2 a) else None)"
        unfolding db2_def by (rule find_updateById_only [OF assms(1) assms(2) others])
      then have "List.find (P again) db2 = None" by (simp add: P_def f2_def)
      then show ?thesis using resetPassword_none [of E tok again db2] by (simp add: P_def)
    qed
    from r2 st r3 show "\<exists>db2 a2.
              resetPassword E True later saltR tok pw db =
                (Success ''Password reset successful'', db2) \<and>
              List.find (\<lambda>x. admin_id x = admin_id a) db2 = Some a2 \<and>
              password a2 = Some (bcrypt_hash E pw saltR) \<and>
              passwordResetToken a2 = None \<and> passwordResetExpires a2 = None \<and>
              (\<forall>again saltA pwA.
                 resetPassword E True again saltA tok pwA db2 =
                   (Failure 400 ''Invalid or expired reset token'', db2))"
      by blast
  qed
  show "expiry \<le> later \<longrightarrow>
           resetPassword E True later saltR tok pw db =
             (Failure 400 ''Invalid or expired reset token'', db)"
  proof
    assume le: "expiry \<le> later"
    have "\<not> P later x" if "x \<in> set db" for x
    proof (cases "x = a")
      case True
      with assms(4) le show ?thesis by (simp add: P_def)
    next
      case False
      with that show ?thesis by (rule others)
    qed
    then have "List.find (P later) db = None" by (simp add: find_None_iff)
    then show "resetPassword E True later saltR tok pw db =
             (Failure 400 ''Invalid or expired reset token'', db)"
      using resetPassword_none [of E tok later db] by (simp add: P_def)
  qed
qed

text \<open>
  The reset request never gets that far. Whatever the transport does, the email service
  throws before it reaches it, so the request of an existing account always takes the
  \<^verbatim>\<open>catch\<close> branch: it answers 500 and clears the digest it has just stored.
\<close>

lemma forgotPassword_never_delivers:
  assumes "List.find (\<lambda>x. email x = mail) db = Some a"
  shows "forgotPassword E True now salt tok mail db =
           (Failure 500 ''Email could not be sent'',
            updateById (admin_id a)
              (\<lambda>s. s\<lparr>passwordResetToken := None, passwordResetExpires := None,
                     updatedAt := now\<rparr>) db)"
  by (simp add: forgotPassword_found [OF assms] sendPasswordResetEmail_throws)

text \<open>
  Claim C5. The claim is that a reset request followed at once by a reset with the raw
  token succeeds once. In the code it does not succeed at all: with a transport that
  would send every mail, the request for an existing account answers 500
  \<^verbatim>\<open>Email could not be sent\<close> and leaves no digest, and the reset with the token that was
  generated answers 400 \<^verbatim>\<open>Invalid or expired reset token\<close>.
\<close>

theorem reset_request_then_reset_fails:
  "createTransport example_env ''bob@x.io'' ''tok'' \<and>
   sendPasswordResetEmail example_env ''bob@x.io'' ''tok'' = Inl TypeError \<and>
   forgotPassword example_env True 1000 ''s'' ''tok'' ''bob@x.io'' [alice, bob] =
     (Failure 500 ''Email could not be sent'', [alice, bob\<lparr>updatedAt := 1000\<rparr>]) \<and>
   resetPassword example_env True 1000 ''r'' ''tok'' ''newpass''
     [alice, bob\<lparr>updatedAt := 1000\<rparr>] =
     (Failure 400 ''Invalid or expired reset token'', [alice, bob\<lparr>updatedAt := 1000\<rparr>])"
proof -
  have "forgotPassword example_env True 1000 ''s'' ''tok'' ''bob@x.io'' [alice, bob] =
     (Failure 500 ''Email could not be sent'', [alice, bob\<lparr>updatedAt := 1000\<rparr>])"
    by (simp add: forgotPassword_never_delivers [where a = bob] alice_def bob_def)
  moreover have "resetPassword example_env True 1000 ''r'' ''tok'' ''newpass''
     [alice, bob\<lparr>updatedAt := 1000\<rparr>] =
     (Failure 400 ''Invalid or expired reset token'', [alice, bob\<lparr>updatedAt := 1000\<rparr>])"
    by (rule resetPassword_none) (simp add: alice_def bob_def)
  moreover have "createTransport example_env ''bob@x.io'' ''tok''"
    by (simp add: example_env_def)
  ultimately show ?thesis by (simp add: sendPasswordResetEmail_throws)
qed

text \<open>
  Claim C6, as the code has it. When the email of a reset request on an existing account
  cannot be sent, the answer is 500 \<^verbatim>\<open>Email could not be sent\<close> and the stored account
  has no token digest and no expiry: the fields are cleared, not put back to what they
  were, so they are as before the request exactly when the account held no token then.
  The password hash, counter, \<open>lockUntil\<close> and \<open>lastLogin\<close> are as before.
\<close>

theorem failed_email_clears_reset_token:
  assumes "valid" and "distinct (map admin_id db)"
    and "List.find (\<lambda>x. email x = mail) db = Some a"
    and "sendPasswordResetEmail E mail resetToken = Inl e"
  shows "\<exists>db' a'. forgotPassword E valid now salt resetToken mail db =
                 (Failure 500 ''Email could not be sent'', db') \<and>
           List.find (\<lambda>x. admin_id x = admin_id a) db' = Some a' \<and>
           passwordResetToken a' = None \<and> passwordResetExpires a' = None \<and>
           password a' = password a \<and> attempts a' = attempts a \<and>
           lockUntil a' = lockUntil a \<and> lastLogin a' = lastLogin a \<and>
           ((passwordResetToken a' = passwordResetToken a \<and>
             passwordResetExpires a' = passwordResetExpires a) \<longleftrightarrow>
            (passwordResetToken a = None \<and> passwordResetExpires a = None))"
proof -
  from assms(3) have mem: "a \<in> set db" by (simp add: find_mem)
  have run: "forgotPassword E valid now salt resetToken mail db =
      (Failure 500 ''Email could not be sent'',
       updateById (admin_id a)
         (\<lambda>s. s\<lparr>passwordResetToken := None, passwordResetExpires := None,
                updatedAt := now\<rparr>) db)"
    using assms(1,4) forgotPassword_found [OF assms(3), of E now salt resetToken] by simp
  have "List.find (\<lambda>x. admin_id x = admin_id a)
          (updateById (admin_id a)
             (\<lambda>s. s\<lparr>passwordResetToken := None, passwordResetExpires := None,
                    updatedAt := now\<rparr>) db) =
        Some (a\<lparr>passwordResetToken := None, passwordResetExpires := None, updatedAt := now\<rparr>)"
    by (rule find_updateById_stable [OF assms(2) find_id_distinct [OF assms(2) mem]]) simp
  with run show ?thesis by (auto simp add: attempts_def)
qed

theorem failed_email_clears_reset_token_witness:
  "\<exists>db' a'. forgotPassword example_env True 1000 ''s'' ''tok'' ''bob@x.io'' [alice, bob] =
       (Failure 500 ''Email could not be sent'', db') \<and>
     List.find (\<lambda>x. admin_id x = 2) db' = Some a' \<and>
     passwordResetToken a' = None \<and> passwordResetExpires a' = None \<and>
     password a' = Some ''#secret2'' \<and> attempts a' = 3 \<and> lockUntil a' = None \<and>
     lastLogin a' = None"
proof -
  have h: "True" "distinct (map admin_id [alice, bob])"
      "List.find (\<lambda>x. email x = ''bob@x.io'') [alice, bob] = Some bob"
      "sendPasswordResetEmail example_env ''bob@x.io'' ''tok'' = Inl TypeError"
    by (simp_all add: alice_def bob_def sendPasswordResetEmail_throws)
  have b: "admin_id bob = 2" "password bob = Some ''#secret2''" "attempts bob = 3"
      "lockUntil bob = None" "lastLogin bob = None"
    by (simp_all add: bob_def attempts_def)
  from failed_email_clears_reset_token [OF h, of 1000 "''s''"]
  show ?thesis unfolding b by blast
qed

text \<open>
  The fields are not left as they were. An account holds the digest of an earlier token
  that is good for another 500 ms; a new request whose email fails answers 500, and the
  earlier token, which would have reset the password before the request, is refused
  after it.
\<close>

theorem failed_email_destroys_earlier_token:
  "resetPassword example_env True 1000 ''r'' ''old'' ''newpass''
     [alice, bob\<lparr>passwordResetToken := Some ''sha:old'', passwordResetExpires := Some 1500\<rparr>] =
     (Success ''Password reset successful'',
      [alice, bob\<lparr>password := Some ''#newpass'', passwordChangedAt := Some 0,
                  updatedAt := 1000\<rparr>]) \<and>
   forgotPassword example_env True 1000 ''s'' ''tok'' ''bob@x.io''
     [alice, bob\<lparr>passwordResetToken := Some ''sha:old'', passwordResetExpires := Some 1500\<rparr>] =
     (Failure 500 ''Email could not be sent'', [alice, bob\<lparr>updatedAt := 1000\<rparr>]) \<and>
   passwordResetToken (bob\<lparr>updatedAt := 1000\<rparr>) \<noteq>
     passwordResetToken
       (bob\<lparr>passwordResetToken := Some ''sha:old'', passwordResetExpires := Some 1500\<rparr>) \<and>
   resetPassword example_env True 1000 ''r'' ''old'' ''newpass''
     [alice, bob\<lparr>updatedAt := 1000\<rparr>] =
     (Failure 400 ''Invalid or expired reset token'', [alice, bob\<lparr>updatedAt := 1000\<rparr>])"
proof -
  have f: "List.find
           (\<lambda>x. passwordResetToken x = Some (sha256_hex example_env ''old'') \<and>
                (case passwordResetExpires x of None \<Rightarrow> False | Some e \<Rightarrow> e > 1000))
        [alice, bob\<lparr>passwordResetToken := Some ''sha:old'', passwordResetExpires := Some 1500\<rparr>] =
         Some (bob\<lparr>passwordResetToken := Some ''sha:old'', passwordResetExpires := Some 1500\<rparr>)"
    by (simp add: alice_def bob_def example_env_def)
  have r1: "resetPassword example_env True 1000 ''r'' ''old'' ''newpass''
     [alice, bob\<lparr>passwordResetToken := Some ''sha:old'', passwordResetExpires := Some 1500\<rparr>] =
     (Success ''Password reset successful'',
      [alice, bob\<lparr>password := Some ''#newpass'', passwordChangedAt := Some 0,
                  updatedAt := 1000\<rparr>])"
    unfolding resetPassword_found [OF f] by (simp add: alice_def bob_def example_env_def)
  have r2: "forgotPassword example_env True 1000 ''s'' ''tok'' ''bob@x.io''
     [alice, bob\<lparr>passwordResetToken := Some ''sha:old'', passwordResetExpires := Some 1500\<rparr>] =
     (Failure 500 ''Email could not be sent'', [alice, bob\<lparr>updatedAt := 1000\<rparr>])"
    by (simp add: forgotPassword_never_delivers [where a = "bob\<lparr>passwordResetToken :=
         Some ''sha:old'', passwordResetExpires := Some 1500\<rparr>"] alice_def bob_def)
  have r3: "resetPassword example_env True 1000 ''r'' ''old'' ''newpass''
     [alice, bob\<lparr>updatedAt := 1000\<rparr>] =
     (Failure 400 ''Invalid or expired reset token'', [alice, bob\<lparr>updatedAt := 1000\<rparr>])"
    by (rule resetPassword_none) (simp add: alice_def bob_def)
  from r1 r2 r3 show ?thesis by (simp add: bob_def)
qed

text \<open>
  Claim C10, as the code has it. A successful reset changes, in the account found by the
  token, the password hash, \<open>passwordResetToken\<close>, \<open>passwordResetExpires\<close>, and also
  \<open>passwordChangedAt\<close> (the second hook) and \<open>updatedAt\<close>; every other field keeps its
  value, \<open>loginAttempts\<close> and \<open>lockUntil\<close> among them, so a locked account stays locked
  until \<open>lockUntil\<close> passes; the other accounts are untouched.
\<close>

theorem reset_password_frame:
  assumes "distinct (map admin_id db)"
    and "List.find
           (\<lambda>x. passwordResetToken x = Some (sha256_hex E tok) \<and>
                (case passwordResetExpires x of None \<Rightarrow> False | Some e \<Rightarrow> e > now)) db =
         Some a"
  shows "\<exists>db' a'. resetPassword E True now salt tok pw db =
                    (Success ''Password reset successful'', db') \<and>
           List.find (\<lambda>x. admin_id x = admin_id a) db' = Some a' \<and>
           password a' = Some (bcrypt_hash E pw salt) \<and>
           passwordResetToken a' = None \<and> passwordResetExpires a' = None \<and>
           passwordChangedAt a' = Some (now - 1000) \<and> updatedAt a' = now \<and>
           admin_id a' = admin_id a \<and> name a' = name a \<and> email a' = email a \<and>
           role a' = role a \<and> avatar a' = avatar a \<and> isActive a' = isActive a \<and>
           lastLogin a' = lastLogin a \<and> attempts a' = attempts a \<and>
           lockUntil a' = lockUntil a \<and> (\<forall>t. isLocked t a' = isLocked t a) \<and>
           (\<forall>j. j \<noteq> admin_id a \<longrightarrow>
              List.find (\<lambda>x. admin_id x = j) db' = List.find (\<lambda>x. admin_id x = j) db)"
proof -
  from assms(2) have mem: "a \<in> set db" by (simp add: find_mem)
  have run: "resetPassword E True now salt tok pw db =
           (Success ''Password reset successful'',
            updateById (admin_id a)
              (\<lambda>s. s\<lparr>password := Some (bcrypt_hash E pw salt),
                     passwordChangedAt := Some (now - 1000), passwordResetToken := None,
                     passwordResetExpires := None, updatedAt := now\<rparr>) db)"
    by (rule resetPassword_found [OF assms(2)])
  have got: "List.find (\<lambda>x. admin_id x = admin_id a)
          (updateById (admin_id a)
              (\<lambda>s. s\<lparr>password := Some (bcrypt_hash E pw salt),
                     passwordChangedAt := Some (now - 1000), passwordResetToken := None,
                     passwordResetExpires := None, updatedAt := now\<rparr>) db) =
        Some (a\<lparr>password := Some (bcrypt_hash E pw salt),
                  passwordChangedAt := Some (now - 1000), passwordResetToken := None,
                  passwordResetExpires := None, updatedAt := now\<rparr>)"
    by (rule find_updateById_stable [OF assms(1) find_id_distinct [OF assms(1) mem]]) simp
  have rest: "List.find (\<lambda>x. admin_id x = j)
          (updateById (admin_id a)
              (\<lambda>s. s\<lparr>password := Some (bcrypt_hash E pw salt),
                     passwordChangedAt := Some (now - 1000), passwordResetToken := None,
                     passwordResetExpires := None, updatedAt := now\<rparr>) db) =
        List.find (\<lambda>x. admin_id x = j) db" if "j \<noteq> admin_id a" for j
    by (rule find_other_updateById) (simp_all add: that)
  from run got rest show ?thesis by (simp add: isLocked_def attempts_def)
qed

theorem reset_password_frame_witness:
  "resetPassword example_env True 2000 ''r'' ''tok'' ''newpass''
     [alice, bob\<lparr>loginAttempts := Some 5, lockUntil := Some 9000,
                 passwordResetToken := Some ''sha:tok'', passwordResetExpires := Some 5000\<rparr>] =
     (Success ''Password reset successful'',
      [alice, bob\<lparr>password := Some ''#newpass'', loginAttempts := Some 5,
                  lockUntil := Some 9000, passwordChangedAt := Some 1000,
                  updatedAt := 2000\<rparr>])"
proof -
  have h: "distinct (map admin_id [alice, bob\<lparr>loginAttempts := Some 5, lockUntil := Some 9000,
                 passwordResetToken := Some ''sha:tok'', passwordResetExpires := Some 5000\<rparr>])"
     "List.find
           (\<lambda>x. passwordResetToken x = Some (sha256_hex example_env ''tok'') \<and>
                (case passwordResetExpires x of None \<Rightarrow> False | Some e \<Rightarrow> e > 2000))
        [alice, bob\<lparr>loginAttempts := Some 5, lockUntil := Some 9000,
                 passwordResetToken := Some ''sha:tok'', passwordResetExpires := Some 5000\<rparr>] =
         Some (bob\<lparr>loginAttempts := Some 5, lockUntil := Some 9000,
                 passwordResetToken := Some ''sha:tok'', passwordResetExpires := Some 5000\<rparr>)"
    by (simp_all add: alice_def bob_def example_env_def)
  from reset_password_frame [OF h, of "''r''" "''newpass''"]
  obtain db' where r: "resetPassword example_env True 2000 ''r'' ''tok'' ''newpass''
     [alice, bob\<lparr>loginAttempts := Some 5, lockUntil := Some 9000,
                 passwordResetToken := Some ''sha:tok'', passwordResetExpires := Some 5000\<rparr>] =
     (Success ''Password reset successful'', db')"
    by blast
  have "snd (resetPassword example_env True 2000 ''r'' ''tok'' ''newpass''
     [alice, bob\<lparr>loginAttempts := Some 5, lockUntil := Some 9000,
                 passwordResetToken := Some ''sha:tok'', passwordResetExpires := Some 5000\<rparr>]) =
      [alice, bob\<lparr>password := Some ''#newpass'', loginAttempts := Some 5,
                  lockUntil := Some 9000, passwordChangedAt := Some 1000,
                  updatedAt := 2000\<rparr>]"
    unfolding resetPassword_found [OF h(2)] by (simp add: alice_def bob_def example_env_def)
  with r show ?thesis by simp
qed

text \<open>
  The reset does not change the three fields only: \<open>passwordChangedAt\<close> goes from unset
  to one second before the reset, and \<open>updatedAt\<close> to its time.
\<close>

theorem reset_password_changes_passwordChangedAt:
  "passwordChangedAt bob = None \<and> updatedAt bob = 0 \<and>
   resetPassword example_env True 2000 ''r'' ''tok'' ''newpass''
     [alice, bob\<lparr>passwordResetToken := Some ''sha:tok'', passwordResetExpires := Some 5000\<rparr>] =
     (Success ''Password reset successful'',
      [alice, bob\<lparr>password := Some ''#newpass'', passwordChangedAt := Some 1000,
                  updatedAt := 2000\<rparr>])"
proof -
  have "List.find
           (\<lambda>x. passwordResetToken x = Some (sha256_hex example_env ''tok'') \<and>
                (case passwordResetExpires x of None \<Rightarrow> False | Some e \<Rightarrow> e > 2000))
        [alice, bob\<lparr>passwordResetToken := Some ''sha:tok'', passwordResetExpires := Some 5000\<rparr>] =
         Some (bob\<lparr>passwordResetToken := Some ''sha:tok'', passwordResetExpires := Some 5000\<rparr>)"
    by (simp add: alice_def bob_def example_env_def)
  then show ?thesis
    by (simp add: resetPassword_found alice_def bob_def example_env_def)
qed

section \<open>Deleting an admin\<close>

lemma protect_found:
  assumes "protect E token db = Inr caller"
  shows "findById (admin_id (data caller)) db = Some caller"
proof -
  from assms obtain i where f: "findById i db = Some caller"
    by (auto simp add: protect_def split: option.splits if_splits)
  then obtain a where "List.find (\<lambda>x. admin_id x = i) db = Some a" "caller = hydrate False a"
    by (auto simp add: findById_def findOne_def)
  then have "admin_id (data caller) = i"
    using find_mem [of "\<lambda>x. admin_id x = i" db a] by (simp add: hydrate_def)
  with f show ?thesis by simp
qed

text \<open>
  Claim C8. For a delete request authenticated as a super-admin: when the target is the
  caller's own identifier the answer is 400 \<^verbatim>\<open>Cannot delete your own account\<close> and the
  store is unchanged; the deletion succeeds exactly when the target is another, existing
  account, which is then removed while the caller's account stays; any other answer
  leaves the store unchanged.
\<close>

theorem delete_admin_not_self:
  assumes "protect E token db = Inr caller" and "role (data caller) = SuperAdmin"
    and "distinct (map admin_id db)"
  shows "(target = admin_id (data caller) \<longrightarrow>
            deleteAdmin E token target db = (Failure 400 ''Cannot delete your own account'', db)) \<and>
         (fst (deleteAdmin E token target db) = Success ''Admin deleted successfully'' \<longleftrightarrow>
            target \<noteq> admin_id (data caller) \<and> List.find (\<lambda>x. admin_id x = target) db \<noteq> None) \<and>
         (fst (deleteAdmin E token target db) = Success ''Admin deleted successfully'' \<longrightarrow>
            snd (deleteAdmin E token target db) = removeById target db \<and>
            List.find (\<lambda>x. admin_id x = target) (snd (deleteAdmin E token target db)) = None \<and>
            List.find (\<lambda>x. admin_id x = admin_id (data caller))
              (snd (deleteAdmin E token target db)) =
              List.find (\<lambda>x. admin_id x = admin_id (data caller)) db) \<and>
         (fst (deleteAdmin E token target db) \<noteq> Success ''Admin deleted successfully'' \<longrightarrow>
            snd (deleteAdmin E token target db) = db)"
proof -
  have run: "deleteAdmin E token target db = deleteAdminHandler target caller db"
    using assms(1,2) by (simp add: deleteAdmin_def authorize_def)
  note self = protect_found [OF assms(1)]
  show ?thesis
  proof (cases "List.find (\<lambda>x. admin_id x = target) db")
    case None
    then have "findById target db = None" by (simp add: findById_def findOne_def)
    then have "deleteAdminHandler target caller db = (Failure 404 ''Admin not found'', db)"
      by (simp add: deleteAdminHandler_def)
    moreover from self \<open>findById target db = None\<close> have "target \<noteq> admin_id (data caller)"
      by auto
    ultimately show ?thesis using run None by simp
  next
    case (Some a)
    then have id: "admin_id a = target" using find_mem [of "\<lambda>x. admin_id x = target" db a] by simp
    from Some have f: "findById target db = Some (hydrate False a)"
      by (simp add: findById_def findOne_def)
    show ?thesis
    proof (cases "target = admin_id (data caller)")
      case True
      with f id have "deleteAdminHandler target caller db =
          (Failure 400 ''Cannot delete your own account'', db)"
        by (simp add: deleteAdminHandler_def hydrate_def)
      with run True show ?thesis by simp
    next
      case False
      with f id have "deleteAdminHandler target caller db =
          (Success ''Admin deleted successfully'', removeById target db)"
        by (simp add: deleteAdminHandler_def hydrate_def)
      with run False Some show ?thesis
        using find_removeById_same [OF assms(3), of target]
          find_removeById_other [of "admin_id (data caller)" target db]
        by simp
    qed
  qed
qed

theorem delete_admin_not_self_witness:
  "deleteAdmin example_env (Some ''t1'') 1 [alice, bob] =
     (Failure 400 ''Cannot delete your own account'', [alice, bob]) \<and>
   deleteAdmin example_env (Some ''t1'') 2 [alice, bob] =
     (Success ''Admin deleted successfully'', [alice])"
proof -
  have p: "protect example_env (Some ''t1'') [alice, bob] = Inr (hydrate False alice)"
    by (simp add: protect_def example_env_def findById_def findOne_def alice_def)
  have r: "role (data (hydrate False alice)) = SuperAdmin"
    by (simp add: hydrate_def alice_def)
  have d: "distinct (map admin_id [alice, bob])" by (simp add: alice_def bob_def)
  have i: "admin_id (data (hydrate False alice)) = 1" by (simp add: hydrate_def alice_def)
  have "deleteAdmin example_env (Some ''t1'') 1 [alice, bob] =
     (Failure 400 ''Cannot delete your own account'', [alice, bob])"
    using delete_admin_not_self [OF p r d, of 1] i by simp
  moreover have "fst (deleteAdmin example_env (Some ''t1'') 2 [alice, bob]) =
      Success ''Admin deleted successfully'' \<and>
     snd (deleteAdmin example_env (Some ''t1'') 2 [alice, bob]) = [alice]"
    using delete_admin_not_self [OF p r d, of 2] i by (simp add: alice_def bob_def)
  ultimately show ?thesis by (simp add: prod_eq_iff)
qed

end
